theory Spec2Isabelle
  imports Complex_Main "HOL-Library.Sublist"
begin

section \<open>Device: the key-value store and the console\<close>

text \<open>
  Every screen reads and writes \<^verbatim>\<open>AsyncStorage\<close> under fixed string keys and
  reports caught errors with \<^verbatim>\<open>console.error\<close>. An awaited call either rejects
  (the \<^verbatim>\<open>catch\<close> block runs) or resolves with a value.
\<close>

datatype 'a promise = Rejected | Resolved 'a

text \<open>
  A stored string is described by what \<^verbatim>\<open>JSON.parse\<close> does to it: it throws,
  or it returns the value the type annotation of the reading code names. A key that
  holds nothing, or the empty string (which the readers test as false before parsing),
  is \<open>None\<close>.
\<close>

datatype 'a stored = Unparseable | Json 'a

record seller =
  s_name :: string

text \<open>
  The fields of \<^verbatim>\<open>Product\<close> that the favourites ledger and the paginators read;
  \<^verbatim>\<open>seller\<close> is read with \<^verbatim>\<open>?.\<close>, so it may be missing.
\<close>

record product =
  p_id :: string
  p_title :: string
  p_price :: real
  p_images :: "string list"
  p_seller :: "seller option"
  p_isLiked :: bool

record favorite =
  f_id :: string
  f_title :: string
  f_price :: real
  f_image :: string
  f_sellerName :: string
  f_addedAt :: int

record shop =
  sh_id :: nat
  sh_nom :: string
  sh_ville :: string

text \<open>\<^verbatim>\<open>CacheData\<close> of the discover screen: the envelope and its payload in one object.\<close>

record CacheData =
  c_timestamp :: int
  c_products :: "product list"
  c_shops :: "shop list"
  c_trending :: "product list"

text \<open>The envelope \<^verbatim>\<open>{ timestamp, data }\<close> of the all-shops and promo screens.\<close>

record 'a envelope =
  e_timestamp :: int
  e_data :: 'a

record device =
  favorites_item :: "favorite list stored option"
  discover_cache_item :: "CacheData stored option"
  shops_cache_item :: "shop list envelope stored option"
  promo_cache_item :: "product list envelope stored option"
  history_item :: "string list stored option"
  getItem_rejects :: bool
  setItem_rejects :: bool
  console :: "string list"

definition getItem :: "device \<Rightarrow> (device \<Rightarrow> 'a option) \<Rightarrow> 'a option promise" where
  "getItem dev key = (if getItem_rejects dev then Rejected else Resolved (key dev))"

definition console_error :: "string \<Rightarrow> device \<Rightarrow> device" where
  "console_error msg dev = dev\<lparr>console := console dev @ [msg]\<rparr>"

section \<open>Favourites ledger\<close>

text \<open>
  \<^verbatim>\<open>getFavorites\<close>: \<^verbatim>\<open>data ? JSON.parse(data) : []\<close> inside
  \<^verbatim>\<open>try { ... } catch { return []; }\<close>.
\<close>

definition getFavorites :: "device \<Rightarrow> favorite list" where
  "getFavorites dev =
     (case getItem dev favorites_item of
        Rejected \<Rightarrow> []
      | Resolved None \<Rightarrow> []
      | Resolved (Some Unparseable) \<Rightarrow> []
      | Resolved (Some (Json favorites)) \<Rightarrow> favorites)"

text \<open>\<^verbatim>\<open>favorites.some(fav => fav.id === productId)\<close>\<close>

definition isFavorite :: "device \<Rightarrow> string \<Rightarrow> bool" where
  "isFavorite dev productId = list_ex (\<lambda>fav. f_id fav = productId) (getFavorites dev)"

text \<open>
  The snapshot \<^verbatim>\<open>newFav\<close>: \<^verbatim>\<open>product.images[0] || ''\<close> and
  \<^verbatim>\<open>product.seller?.name || 'Vendeur'\<close>.
\<close>

definition newFav :: "int \<Rightarrow> product \<Rightarrow> favorite" where
  "newFav now product =
     \<lparr> f_id = p_id product,
       f_title = p_title product,
       f_price = p_price product,
       f_image = (case p_images product of [] \<Rightarrow> [] | img # _ \<Rightarrow> img),
       f_sellerName =
         (case p_seller product of
            None \<Rightarrow> ''Vendeur''
          | Some s \<Rightarrow> if s_name s = [] then ''Vendeur'' else s_name s),
       f_addedAt = now \<rparr>"

definition setFavorites :: "string \<Rightarrow> favorite list \<Rightarrow> device \<Rightarrow> device" where
  "setFavorites msg favs dev =
     (if setItem_rejects dev then console_error msg dev
      else dev\<lparr>favorites_item := Some (Json favs)\<rparr>)"

definition addFavorite :: "int \<Rightarrow> product \<Rightarrow> device \<Rightarrow> device" where
  "addFavorite now product dev =
     (let favorites = getFavorites dev in
      if \<not> list_ex (\<lambda>fav. f_id fav = p_id product) favorites
      then setFavorites ''Erreur ajout favori:'' (newFav now product # favorites) dev
      else dev)"

definition removeFavorite :: "string \<Rightarrow> device \<Rightarrow> device" where
  "removeFavorite productId dev =
     (let favorites = getFavorites dev;
          updated = filter (\<lambda>fav. f_id fav \<noteq> productId) favorites
      in setFavorites ''Erreur suppression favori:'' updated dev)"

text \<open>
  \<^verbatim>\<open>toggleFavorite\<close> of the product-detail screen. It reads the key itself and
  branches on the screen's own \<^verbatim>\<open>isFavorite\<close> flag, which is an argument here;
  \<^verbatim>\<open>sellerNom\<close> is \<^verbatim>\<open>seller?.nom\<close>. A rejected read or a failed parse
  reaches the \<^verbatim>\<open>catch\<close> before anything is written.
\<close>

definition toggleFavorite_detail ::
  "int \<Rightarrow> product \<Rightarrow> string option \<Rightarrow> bool \<Rightarrow> device \<Rightarrow> bool \<times> device" where
  "toggleFavorite_detail now product sellerNom isFav dev =
     (case getItem dev favorites_item of
        Rejected \<Rightarrow> (isFav, console_error ''Erreur toggle favori:'' dev)
      | Resolved (Some Unparseable) \<Rightarrow> (isFav, console_error ''Erreur toggle favori:'' dev)
      | Resolved r \<Rightarrow>
          (let favs = (case r of Some (Json fs) \<Rightarrow> fs | _ \<Rightarrow> []);
               favs' =
                 (if isFav then filter (\<lambda>f. f_id f \<noteq> p_id product) favs
                  else \<lparr> f_id = p_id product,
                         f_title = p_title product,
                         f_price = p_price product,
                         f_image = (case p_images product of [] \<Rightarrow> [] | img # _ \<Rightarrow> img),
                         f_sellerName =
                           (case sellerNom of
                              None \<Rightarrow> ''Vendeur''
                            | Some n \<Rightarrow> if n = [] then ''Vendeur'' else n),
                         f_addedAt = now \<rparr> # favs)
           in if setItem_rejects dev
              then (isFav, console_error ''Erreur toggle favori:'' dev)
              else (\<not> isFav, dev\<lparr>favorites_item := Some (Json favs')\<rparr>)))"

text \<open>The number of entries the persisted list holds for one identifier.\<close>

definition entries_for :: "string \<Rightarrow> device \<Rightarrow> nat" where
  "entries_for productId dev =
     length (filter (\<lambda>fav. f_id fav = productId) (getFavorites dev))"

section \<open>Discover screen: cache, feed loader and load-more\<close>

definition ITEMS_PER_PAGE :: nat where
  "ITEMS_PER_PAGE = 10"

definition CACHE_EXPIRY :: int where
  "CACHE_EXPIRY = 5 * 60 * 1000"

text \<open>The body \<^verbatim>\<open>{ success, products, totalPages }\<close> of \<^verbatim>\<open>GET /products\<close>;
  \<^verbatim>\<open>r_products\<close> is \<^verbatim>\<open>formatProducts(data.products || [])\<close>.\<close>

record response =
  r_success :: bool
  r_products :: "product list"
  r_totalPages :: "nat option"

text \<open>
  \<^verbatim>\<open>sent\<close> is not a variable of the source: it is the trace of the requests for a
  page of \<^verbatim>\<open>/products\<close> that the screen has made with \<^verbatim>\<open>fetch\<close>, in order.
\<close>

record discover =
  allProducts :: "product list"
  feedProducts :: "product list"
  page :: nat
  hasMore :: bool
  loading :: bool
  loadingMore :: bool
  shops :: "shop list"
  trendingProducts :: "product list"
  isCacheLoaded :: bool
  dev_d :: device
  sent :: "nat list"

text \<open>
  What one render of \<^verbatim>\<open>DiscoverScreen\<close> binds with \<^verbatim>\<open>useState\<close>. The callbacks
  that render creates read these constants; a later \<^verbatim>\<open>setState\<close> changes the state,
  not what a callback already created sees.
\<close>

record captured =
  cap_page :: nat
  cap_hasMore :: bool
  cap_loadingMore :: bool
  cap_shops :: "shop list"
  cap_trendingProducts :: "product list"

definition render :: "discover \<Rightarrow> captured" where
  "render st =
     \<lparr> cap_page = page st, cap_hasMore = hasMore st, cap_loadingMore = loadingMore st,
       cap_shops = shops st, cap_trendingProducts = trendingProducts st \<rparr>"

definition loadCache :: "int \<Rightarrow> device \<Rightarrow> CacheData option \<times> device" where
  "loadCache now d =
     (case getItem d discover_cache_item of
        Rejected \<Rightarrow> (None, console_error ''Erreur chargement cache:'' d)
      | Resolved None \<Rightarrow> (None, d)
      | Resolved (Some Unparseable) \<Rightarrow> (None, console_error ''Erreur chargement cache:'' d)
      | Resolved (Some (Json cache)) \<Rightarrow>
          if now - c_timestamp cache < CACHE_EXPIRY then (Some cache, d) else (None, d))"

definition saveCache ::
  "int \<Rightarrow> product list \<Rightarrow> shop list \<Rightarrow> product list \<Rightarrow> device \<Rightarrow> device" where
  "saveCache now products shs trending d =
     (if setItem_rejects d then console_error ''Erreur sauvegarde cache:'' d
      else d\<lparr>discover_cache_item :=
             Some (Json \<lparr> c_timestamp = now, c_products = products,
                          c_shops = shs, c_trending = trending \<rparr>)\<rparr>)"

text \<open>The first half of \<^verbatim>\<open>loadInitialData\<close>: the render from the cache, before the
  network refresh is started.\<close>

definition loadInitialData :: "int \<Rightarrow> discover \<Rightarrow> discover" where
  "loadInitialData now st =
     (case loadCache now (dev_d st) of
        (Some cached, d) \<Rightarrow>
          st\<lparr> allProducts := c_products cached,
              feedProducts := take ITEMS_PER_PAGE (c_products cached),
              shops := c_shops cached,
              trendingProducts := c_trending cached,
              isCacheLoaded := True,
              loading := False,
              dev_d := d \<rparr>
      | (None, d) \<Rightarrow> st\<lparr>dev_d := d\<rparr>)"

text \<open>
  \<^verbatim>\<open>shuffleArray\<close>: Fisher-Yates from the last index down to 1; \<^verbatim>\<open>rnd i\<close> stands
  for the draw \<^verbatim>\<open>Math.random()\<close> made at index \<^verbatim>\<open>i\<close>, scaled to an integer.
\<close>

fun shuffle_from :: "(nat \<Rightarrow> nat) \<Rightarrow> nat \<Rightarrow> 'a list \<Rightarrow> 'a list" where
  "shuffle_from rnd 0 xs = xs"
| "shuffle_from rnd (Suc i) xs =
     (let j = rnd (Suc i) mod (Suc i + 1)
      in shuffle_from rnd i (xs[Suc i := xs ! j, j := xs ! Suc i]))"

definition shuffleArray :: "(nat \<Rightarrow> nat) \<Rightarrow> 'a list \<Rightarrow> 'a list" where
  "shuffleArray rnd xs = shuffle_from rnd (length xs - 1) xs"

text \<open>\<^verbatim>\<open>products.filter(p => !existingIds.has(p.id))\<close> with
  \<^verbatim>\<open>existingIds = new Set(prev.map(p => p.id))\<close>, appended to \<^verbatim>\<open>prev\<close>.\<close>

definition append_new :: "product list \<Rightarrow> product list \<Rightarrow> product list" where
  "append_new prev products =
     prev @ filter (\<lambda>p. p_id p \<notin> set (map p_id prev)) products"

text \<open>
  \<^verbatim>\<open>fetchProducts(pageNum, shouldShuffle, forceRefresh)\<close> is an async function, in
  two parts. Up to \<^verbatim>\<open>await fetch(...)\<close> the request for the page goes out.
\<close>

definition fetch_sent :: "nat \<Rightarrow> discover \<Rightarrow> discover" where
  "fetch_sent pageNum st = st\<lparr>sent := sent st @ [pageNum]\<rparr>"

text \<open>
  From the point where the awaited request settles: \<^verbatim>\<open>Rejected\<close> is a throwing
  \<^verbatim>\<open>fetch\<close> or \<^verbatim>\<open>response.json()\<close>. The functional updates
  \<^verbatim>\<open>setAllProducts(prev => ...)\<close> read the state; \<^verbatim>\<open>shops\<close> and
  \<^verbatim>\<open>trendingProducts\<close> handed to \<^verbatim>\<open>saveCache\<close> are those of the render \<open>c\<close>
  that made the call.
\<close>

definition fetchProducts_settled ::
  "captured \<Rightarrow> (nat \<Rightarrow> nat) \<Rightarrow> int \<Rightarrow> nat \<Rightarrow> bool \<Rightarrow> bool \<Rightarrow> response promise \<Rightarrow> discover \<Rightarrow> discover" where
  "fetchProducts_settled c rnd now pageNum shouldShuffle forceRefresh r st =
     (case r of
        Rejected \<Rightarrow> st\<lparr>dev_d := console_error ''Erreur fetchProducts:'' (dev_d st)\<rparr>
      | Resolved data \<Rightarrow>
          if r_success data then
            (let liked = map (\<lambda>p. p\<lparr>p_isLiked := isFavorite (dev_d st) (p_id p)\<rparr>) (r_products data);
                 products = (if shouldShuffle then shuffleArray rnd liked else liked);
                 st1 =
                   (if pageNum = 1
                    then st\<lparr> allProducts := products,
                             feedProducts := take ITEMS_PER_PAGE products,
                             dev_d := saveCache now products (cap_shops c) (cap_trendingProducts c)
                                        (dev_d st) \<rparr>
                    else st\<lparr> allProducts := append_new (allProducts st) products,
                             feedProducts := append_new (feedProducts st) products \<rparr>)
             in st1\<lparr> page := pageNum,
                     hasMore := (pageNum < (case r_totalPages data of
                                              None \<Rightarrow> 1
                                            | Some t \<Rightarrow> if t = 0 then 1 else t)) \<rparr>)
          else st)"

text \<open>One whole call, with nothing else running between its two parts.\<close>

definition fetchProducts ::
  "captured \<Rightarrow> (nat \<Rightarrow> nat) \<Rightarrow> int \<Rightarrow> nat \<Rightarrow> bool \<Rightarrow> bool \<Rightarrow> response promise \<Rightarrow> discover \<Rightarrow> discover" where
  "fetchProducts c rnd now pageNum shouldShuffle forceRefresh r st =
     fetchProducts_settled c rnd now pageNum shouldShuffle forceRefresh r (fetch_sent pageNum st)"

text \<open>
  \<^verbatim>\<open>loadMoreProducts\<close> as created by the render \<open>c\<close>, up to the request going out:
  the guard and \<^verbatim>\<open>page + 1\<close> are read from \<open>c\<close>.
\<close>

definition load_more_passes :: "captured \<Rightarrow> bool" where
  "load_more_passes c = (\<not> cap_loadingMore c \<and> cap_hasMore c)"

definition loadMoreProducts :: "captured \<Rightarrow> discover \<Rightarrow> discover" where
  "loadMoreProducts c st =
     (if load_more_passes c
      then fetch_sent (cap_page c + 1) (st\<lparr>loadingMore := True\<rparr>)
      else st)"

text \<open>
  The running screen: the state, the render whose callbacks are mounted, and the calls
  of \<^verbatim>\<open>fetchProducts\<close> made by \<^verbatim>\<open>loadMoreProducts\<close> that await their response,
  each with its page and the render that made it. A re-render is an event of its own,
  so that a trigger may come before or after it.
\<close>

record app =
  live :: discover
  seen :: captured
  pending :: "(nat \<times> captured) list"

datatype event = Render | EndReached | Settled int "response promise"

text \<open>
  \<^verbatim>\<open>Settled\<close>: the oldest pending call gets its response, the rest of
  \<^verbatim>\<open>fetchProducts(page + 1, false)\<close> runs, then
  \<^verbatim>\<open>.finally(() => setLoadingMore(false))\<close>.
\<close>

fun step :: "(nat \<Rightarrow> nat) \<Rightarrow> event \<Rightarrow> app \<Rightarrow> app" where
  "step rnd Render a = a\<lparr>seen := render (live a)\<rparr>"
| "step rnd EndReached a =
     a\<lparr> live := loadMoreProducts (seen a) (live a),
        pending := pending a @
          (if load_more_passes (seen a) then [(cap_page (seen a) + 1, seen a)] else []) \<rparr>"
| "step rnd (Settled now r) a =
     (case pending a of
        [] \<Rightarrow> a
      | (pageNum, c) # rest \<Rightarrow>
          a\<lparr> live := (fetchProducts_settled c rnd now pageNum False False r (live a))
                       \<lparr>loadingMore := False\<rparr>,
             pending := rest \<rparr>)"

fun run :: "(nat \<Rightarrow> nat) \<Rightarrow> event list \<Rightarrow> app \<Rightarrow> app" where
  "run rnd [] a = a"
| "run rnd (e # es) a = run rnd es (step rnd e a)"

definition failed :: "response promise \<Rightarrow> bool" where
  "failed r = (case r of Rejected \<Rightarrow> True | Resolved data \<Rightarrow> \<not> r_success data)"

definition ids :: "product list \<Rightarrow> string list" where
  "ids ps = map p_id ps"

text \<open>A response event whose page, if it has one, names no identifier twice.\<close>

definition page_ids_distinct :: "event \<Rightarrow> bool" where
  "page_ids_distinct e =
     (case e of
        Settled now (Resolved data) \<Rightarrow> distinct (ids (r_products data))
      | _ \<Rightarrow> True)"

section \<open>Search screen: result pages and history\<close>

text \<open>
  \<^verbatim>\<open>String.prototype.trim\<close> and \<^verbatim>\<open>toLowerCase\<close> are arguments of the functions
  that call them. The two below are their restriction to ASCII.
\<close>

definition is_space :: "char \<Rightarrow> bool" where
  "is_space c = (c \<in> set [CHR '' '', CHR 0x09, CHR 0x0A, CHR 0x0B, CHR 0x0C, CHR 0x0D])"

definition ascii_trim :: "string \<Rightarrow> string" where
  "ascii_trim s = rev (dropWhile is_space (rev (dropWhile is_space s)))"

definition ascii_lower :: "string \<Rightarrow> string" where
  "ascii_lower s =
     map (\<lambda>c. let n = (of_char c :: nat)
              in if 65 \<le> n \<and> n \<le> 90 then char_of (n + 32) else c) s"

datatype failure = Timeout | NotFound | OtherFailure

record search_data =
  sr_success :: bool
  sr_results :: "product list"
  sr_page :: nat
  sr_total_pages :: nat

datatype search_outcome = Threw failure | Answered search_data

record search =
  products_s :: "product list"
  page_s :: nat
  hasMore_s :: bool
  loading_s :: bool
  isSearching :: bool
  error_s :: "string option"
  searchHistory :: "string list"
  dev_s :: device

definition saveSearchHistory ::
  "(string \<Rightarrow> string) \<Rightarrow> (string \<Rightarrow> string) \<Rightarrow> string \<Rightarrow> search \<Rightarrow> search" where
  "saveSearchHistory trim toLowerCase query st =
     (if trim query = [] then st
      else
        (let updatedHistory =
               take 10 (trim query #
                        filter (\<lambda>item. toLowerCase item \<noteq> toLowerCase (trim query))
                               (searchHistory st));
             d = dev_s st
         in st\<lparr> searchHistory := updatedHistory,
                 dev_s := (if setItem_rejects d
                           then console_error ''Erreur sauvegarde historique:'' d
                           else d\<lparr>history_item := Some (Json updatedHistory)\<rparr>) \<rparr>))"

text \<open>
  \<^verbatim>\<open>handleSearch(query, reset)\<close>, for the product list, from the point where the
  search request settles; \<^verbatim>\<open>sr_results\<close> is \<^verbatim>\<open>processedResults\<close>, and
  \<^verbatim>\<open>sr_page\<close>, \<^verbatim>\<open>sr_total_pages\<close> are the \<^verbatim>\<open>page\<close> and \<^verbatim>\<open>total_pages\<close>
  of the body. \<^verbatim>\<open>Threw\<close> is any exception of the \<^verbatim>\<open>try\<close> block, sorted as the
  \<^verbatim>\<open>catch\<close> block sorts it. The nearby-shops list of the screen is left out.
\<close>

definition handleSearch ::
  "(string \<Rightarrow> string) \<Rightarrow> (string \<Rightarrow> string) \<Rightarrow> string \<Rightarrow> bool \<Rightarrow> search_outcome \<Rightarrow> search \<Rightarrow> search" where
  "handleSearch trim toLowerCase query reset outcome st =
     (if trim query = [] then st
      else
        (let st1 = (if reset
                    then st\<lparr> isSearching := True, error_s := None, page_s := 1,
                             hasMore_s := True, products_s := [] \<rparr>
                    else st\<lparr> loading_s := True \<rparr>);
             st2 =
               (case outcome of
                  Threw f \<Rightarrow>
                    st1\<lparr> error_s := Some (case f of
                                           Timeout \<Rightarrow> ''La recherche a pris trop de temps''
                                         | NotFound \<Rightarrow> ''Service de recherche indisponible''
                                         | OtherFailure \<Rightarrow> ''Erreur lors de la recherche'') \<rparr>
                | Answered data \<Rightarrow>
                    if sr_success data then
                      saveSearchHistory trim toLowerCase query
                        (st1\<lparr> products_s := (if reset then sr_results data
                                              else products_s st1 @ sr_results data),
                              hasMore_s := (sr_page data < sr_total_pages data),
                              page_s := sr_page data + 1 \<rparr>)
                    else st1)
         in st2\<lparr> isSearching := False, loading_s := False \<rparr>))"

text \<open>\<^verbatim>\<open>handleLoadMore\<close>, with the outcome of the request it starts.\<close>

definition handleLoadMore ::
  "(string \<Rightarrow> string) \<Rightarrow> (string \<Rightarrow> string) \<Rightarrow> string \<Rightarrow> search_outcome \<Rightarrow> search \<Rightarrow> search" where
  "handleLoadMore trim toLowerCase searchQuery outcome st =
     (if \<not> loading_s st \<and> hasMore_s st \<and> length searchQuery > 0
      then handleSearch trim toLowerCase searchQuery False outcome st
      else st)"

text \<open>Inserting a sequence of queries, oldest first.\<close>

fun insert_queries ::
  "(string \<Rightarrow> string) \<Rightarrow> (string \<Rightarrow> string) \<Rightarrow> string list \<Rightarrow> search \<Rightarrow> search" where
  "insert_queries trim toLowerCase [] st = st"
| "insert_queries trim toLowerCase (q # qs) st =
     insert_queries trim toLowerCase qs (saveSearchHistory trim toLowerCase q st)"

section \<open>Shop-detail screen: product pages\<close>

record shop_data =
  sd_success :: bool
  sd_products :: "product list"
  sd_totalPages :: nat
  sd_page :: nat

record shopDetail =
  products_sd :: "product list"
  page_sd :: nat
  totalPages_sd :: nat
  loading_sd :: bool
  loadingMore_sd :: bool
  refreshing_sd :: bool
  toast_visible :: bool

text \<open>
  \<^verbatim>\<open>fetchShopData(pageNum, shouldReset)\<close> from the point where the request settles,
  for the product list and the page counters; the toast is kept as a flag.
\<close>

definition fetchShopData :: "nat \<Rightarrow> bool \<Rightarrow> shop_data promise \<Rightarrow> shopDetail \<Rightarrow> shopDetail" where
  "fetchShopData pageNum shouldReset r st =
     (let st1 =
            (case r of
               Rejected \<Rightarrow> st\<lparr>toast_visible := True\<rparr>
             | Resolved data \<Rightarrow>
                 if sd_success data
                 then st\<lparr> products_sd := (if shouldReset then sd_products data
                                           else products_sd st @ sd_products data),
                          totalPages_sd := sd_totalPages data,
                          page_sd := sd_page data \<rparr>
                 else st\<lparr>toast_visible := True\<rparr>)
      in st1\<lparr> loading_sd := False, loadingMore_sd := False, refreshing_sd := False \<rparr>)"

text \<open>\<^verbatim>\<open>loadMore\<close> of the shop-detail screen, with the outcome of the request it starts.\<close>

definition loadMore_sd :: "shop_data promise \<Rightarrow> shopDetail \<Rightarrow> shopDetail" where
  "loadMore_sd r st =
     (if page_sd st < totalPages_sd st \<and> \<not> loadingMore_sd st
      then fetchShopData (page_sd st + 1) False r (st\<lparr>loadingMore_sd := True\<rparr>)
      else st)"

section \<open>All-shops and promo-products screens: cache and local pages\<close>

definition ITEMS_PER_PAGE_local :: nat where
  "ITEMS_PER_PAGE_local = 5"

record allShopsScreen =
  allShops :: "shop list"
  displayedShops :: "shop list"
  page_a :: nat
  hasMore_a :: bool
  loading_a :: bool
  loadingMore_a :: bool
  dev_a :: device

record promoScreen =
  allProducts_p :: "product list"
  displayedProducts :: "product list"
  page_p :: nat
  hasMore_p :: bool
  loading_p :: bool
  loadingMore_p :: bool
  dev_p :: device

definition loadCache_shops :: "int \<Rightarrow> device \<Rightarrow> shop list option \<times> device" where
  "loadCache_shops now d =
     (case getItem d shops_cache_item of
        Rejected \<Rightarrow> (None, console_error ''Erreur chargement cache:'' d)
      | Resolved None \<Rightarrow> (None, d)
      | Resolved (Some Unparseable) \<Rightarrow> (None, console_error ''Erreur chargement cache:'' d)
      | Resolved (Some (Json cache)) \<Rightarrow>
          if now - e_timestamp cache < CACHE_EXPIRY then (Some (e_data cache), d) else (None, d))"

definition loadCache_promo :: "int \<Rightarrow> device \<Rightarrow> product list option \<times> device" where
  "loadCache_promo now d =
     (case getItem d promo_cache_item of
        Rejected \<Rightarrow> (None, console_error ''Erreur chargement cache:'' d)
      | Resolved None \<Rightarrow> (None, d)
      | Resolved (Some Unparseable) \<Rightarrow> (None, console_error ''Erreur chargement cache:'' d)
      | Resolved (Some (Json cache)) \<Rightarrow>
          if now - e_timestamp cache < CACHE_EXPIRY then (Some (e_data cache), d) else (None, d))"

definition applyPagination :: "shop list \<Rightarrow> nat \<Rightarrow> allShopsScreen \<Rightarrow> allShopsScreen" where
  "applyPagination shs pageNum st =
     (let end = pageNum * ITEMS_PER_PAGE_local
      in st\<lparr> displayedShops := take end shs, hasMore_a := (end < length shs) \<rparr>)"

definition applyPagination_promo :: "product list \<Rightarrow> nat \<Rightarrow> promoScreen \<Rightarrow> promoScreen" where
  "applyPagination_promo products pageNum st =
     (let end = pageNum * ITEMS_PER_PAGE_local
      in st\<lparr> displayedProducts := take end products, hasMore_p := (end < length products) \<rparr>)"

text \<open>The cache half of \<^verbatim>\<open>loadData\<close> on both screens.\<close>

definition loadData :: "int \<Rightarrow> allShopsScreen \<Rightarrow> allShopsScreen" where
  "loadData now st =
     (case loadCache_shops now (dev_a st) of
        (Some cached, d) \<Rightarrow>
          (applyPagination cached 1 (st\<lparr>allShops := cached\<rparr>))\<lparr>loading_a := False, dev_a := d\<rparr>
      | (None, d) \<Rightarrow> st\<lparr>dev_a := d\<rparr>)"

definition loadData_promo :: "int \<Rightarrow> promoScreen \<Rightarrow> promoScreen" where
  "loadData_promo now st =
     (case loadCache_promo now (dev_p st) of
        (Some cached, d) \<Rightarrow>
          (applyPagination_promo cached 1 (st\<lparr>allProducts_p := cached\<rparr>))\<lparr>loading_p := False, dev_p := d\<rparr>
      | (None, d) \<Rightarrow> st\<lparr>dev_p := d\<rparr>)"

text \<open>\<^verbatim>\<open>loadMore\<close> of both screens: no request, the next slice of the fetched list.\<close>

definition loadMore :: "allShopsScreen \<Rightarrow> allShopsScreen" where
  "loadMore st =
     (if loadingMore_a st \<or> \<not> hasMore_a st then st
      else
        (let nextPage = page_a st + 1
         in (applyPagination (allShops st) nextPage st)\<lparr>page_a := nextPage, loadingMore_a := False\<rparr>))"

definition loadMore_promo :: "promoScreen \<Rightarrow> promoScreen" where
  "loadMore_promo st =
     (if loadingMore_p st \<or> \<not> hasMore_p st then st
      else
        (let nextPage = page_p st + 1
         in (applyPagination_promo (allProducts_p st) nextPage st)\<lparr>page_p := nextPage, loadingMore_p := False\<rparr>))"


section \<open>Shop-detail screen: distance\<close>

text \<open>
  JavaScript numbers are taken as real numbers, and \<^verbatim>\<open>Math.sin\<close>, \<^verbatim>\<open>Math.cos\<close>,
  \<^verbatim>\<open>Math.sqrt\<close> as the real functions. \<^verbatim>\<open>Math.atan2(y, x)\<close> is the angle of the
  point \<open>(x, y)\<close>, in \<open>(-pi, pi]\<close>, and 0 at the origin.
\<close>

definition atan2 :: "real \<Rightarrow> real \<Rightarrow> real" where
  "atan2 y x =
     (if 0 < x then arctan (y / x)
      else if x < 0 \<and> 0 \<le> y then arctan (y / x) + pi
      else if x < 0 \<and> y < 0 then arctan (y / x) - pi
      else if 0 < y then pi / 2
      else if y < 0 then - (pi / 2)
      else 0)"

definition calculateDistance :: "real \<Rightarrow> real \<Rightarrow> real \<Rightarrow> real \<Rightarrow> real" where
  "calculateDistance lat1 lon1 lat2 lon2 =
     (let R = 6371;
          dLat = (lat2 - lat1) * (pi / 180);
          dLon = (lon2 - lon1) * (pi / 180);
          a = sin (dLat / 2) * sin (dLat / 2) +
              cos (lat1 * (pi / 180)) * cos (lat2 * (pi / 180)) *
                sin (dLon / 2) * sin (dLon / 2);
          c = 2 * atan2 (sqrt a) (sqrt (1 - a))
      in R * c)"

section \<open>Sample values\<close>

definition empty_device :: device where
  "empty_device =
     \<lparr> favorites_item = None, discover_cache_item = None, shops_cache_item = None,
       promo_cache_item = None, history_item = None,
       getItem_rejects = False, setItem_rejects = False, console = [] \<rparr>"

definition sample_product :: "string \<Rightarrow> product" where
  "sample_product i =
     \<lparr> p_id = i, p_title = ''Lampe'', p_price = 12, p_images = [''a.png''],
       p_seller = Some \<lparr> s_name = ''Awa'' \<rparr>, p_isLiked = False \<rparr>"

definition sample_discover :: discover where
  "sample_discover =
     \<lparr> allProducts = [sample_product ''p1''], feedProducts = [sample_product ''p1''],
       page = 1, hasMore = True, loading = False, loadingMore = False,
       shops = [], trendingProducts = [], isCacheLoaded = False,
       dev_d = empty_device, sent = [] \<rparr>"

definition sample_app :: app where
  "sample_app = \<lparr> live = sample_discover, seen = render sample_discover, pending = [] \<rparr>"

definition sample_response :: "product list \<Rightarrow> response" where
  "sample_response ps = \<lparr> r_success = True, r_products = ps, r_totalPages = Some 3 \<rparr>"

definition sample_search :: search where
  "sample_search =
     \<lparr> products_s = [sample_product ''p1''], page_s = 2, hasMore_s = True, loading_s = False,
       isSearching = False, error_s = None, searchHistory = [], dev_s = empty_device \<rparr>"

definition sample_shopDetail :: shopDetail where
  "sample_shopDetail =
     \<lparr> products_sd = [sample_product ''p1''], page_sd = 1, totalPages_sd = 3,
       loading_sd = False, loadingMore_sd = False, refreshing_sd = False,
       toast_visible = False \<rparr>"

definition sample_allShops :: allShopsScreen where
  "sample_allShops =
     \<lparr> allShops = [], displayedShops = [], page_a = 1, hasMore_a = True, loading_a = True,
       loadingMore_a = False, dev_a = empty_device \<rparr>"

definition sample_promo :: promoScreen where
  "sample_promo =
     \<lparr> allProducts_p = [], displayedProducts = [], page_p = 1, hasMore_p = True,
       loading_p = True, loadingMore_p = False, dev_p = empty_device \<rparr>"

definition sample_cache :: "int \<Rightarrow> CacheData" where
  "sample_cache ts =
     \<lparr> c_timestamp = ts, c_products = [sample_product ''p1''], c_shops = [],
       c_trending = [] \<rparr>"

definition sample_shop :: shop where
  "sample_shop = \<lparr> sh_id = 7, sh_nom = ''Kiosque'', sh_ville = ''Lubumbashi'' \<rparr>"

definition cached_discover :: "int \<Rightarrow> discover" where
  "cached_discover ts =
     sample_discover\<lparr>dev_d := empty_device\<lparr>discover_cache_item := Some (Json (sample_cache ts))\<rparr>\<rparr>"

definition cached_allShops :: "int \<Rightarrow> allShopsScreen" where
  "cached_allShops ts =
     sample_allShops\<lparr>dev_a := empty_device\<lparr>shops_cache_item :=
        Some (Json \<lparr> e_timestamp = ts, e_data = [sample_shop] \<rparr>)\<rparr>\<rparr>"

definition cached_promo :: "int \<Rightarrow> promoScreen" where
  "cached_promo ts =
     sample_promo\<lparr>dev_p := empty_device\<lparr>promo_cache_item :=
        Some (Json \<lparr> e_timestamp = ts, e_data = [sample_product ''p1''] \<rparr>)\<rparr>\<rparr>"

definition sample_queries :: "string list" where
  "sample_queries =
     [''a'', ''b '', ''C'', ''d'', ''e'', ''f'', ''g'', ''h'', ''i'', ''j'', '' k'']"

section \<open>Properties of the favourites ledger\<close>

lemma getFavorites_cases:
  "getFavorites d =
     (if getItem_rejects d then []
      else case favorites_item d of Some (Json favs) \<Rightarrow> favs | _ \<Rightarrow> [])"
  by (simp add: getFavorites_def getItem_def split: option.splits stored.splits)

lemma getFavorites_after_set:
  "\<not> getItem_rejects d \<Longrightarrow> \<not> setItem_rejects d \<Longrightarrow>
   getFavorites (setFavorites msg favs d) = favs"
  by (simp add: getFavorites_def setFavorites_def getItem_def)

lemma getFavorites_addFavorite:
  "\<not> getItem_rejects d \<Longrightarrow> \<not> setItem_rejects d \<Longrightarrow>
   getFavorites (addFavorite now product d) =
     (if list_ex (\<lambda>fav. f_id fav = p_id product) (getFavorites d)
      then getFavorites d
      else newFav now product # getFavorites d)"
  by (simp add: addFavorite_def Let_def getFavorites_after_set)

lemma getFavorites_removeFavorite:
  "\<not> getItem_rejects d \<Longrightarrow> \<not> setItem_rejects d \<Longrightarrow>
   getFavorites (removeFavorite productId d) =
     filter (\<lambda>fav. f_id fav \<noteq> productId) (getFavorites d)"
  by (simp add: removeFavorite_def Let_def getFavorites_after_set)

lemma newFav_id [simp]: "f_id (newFav now product) = p_id product"
  by (simp add: newFav_def)

lemma isFavorite_entries: "isFavorite d i \<longleftrightarrow> entries_for i d \<noteq> 0"
  by (simp add: isFavorite_def entries_for_def list_ex_iff filter_empty_conv)

lemma addFavorite_present: "isFavorite d (p_id p) \<Longrightarrow> addFavorite now p d = d"
  by (simp add: addFavorite_def isFavorite_def)

lemma addFavorite_absent:
  "\<not> isFavorite d (p_id p) \<Longrightarrow> \<not> setItem_rejects d \<Longrightarrow>
   addFavorite now p d = d\<lparr>favorites_item := Some (Json (newFav now p # getFavorites d))\<rparr>"
  by (simp add: addFavorite_def isFavorite_def setFavorites_def)

lemma isFavorite_addFavorite:
  "\<not> getItem_rejects d \<Longrightarrow> \<not> setItem_rejects d \<Longrightarrow> isFavorite (addFavorite now p d) (p_id p)"
  by (simp add: isFavorite_def getFavorites_addFavorite)

lemma entries_for_addFavorite:
  assumes "\<not> getItem_rejects d" and "\<not> setItem_rejects d"
  shows "entries_for (p_id p) (addFavorite now p d) = max 1 (entries_for (p_id p) d)"
proof (cases "isFavorite d (p_id p)")
  case True
  then have "entries_for (p_id p) d \<noteq> 0" by (simp add: isFavorite_entries)
  then show ?thesis using True by (simp add: addFavorite_present)
next
  case False
  then have "entries_for (p_id p) d = 0" by (simp add: isFavorite_entries)
  moreover have "getFavorites (addFavorite now p d) = newFav now p # getFavorites d"
    using False assms by (simp add: getFavorites_addFavorite isFavorite_def)
  ultimately show ?thesis by (simp add: entries_for_def)
qed

text \<open>
  C3. With the store answering its calls, whatever the key held before: after
  \<^verbatim>\<open>addFavorite(p)\<close> the test \<^verbatim>\<open>isFavorite(p.id)\<close> is true, and after a following
  \<^verbatim>\<open>removeFavorite(p.id)\<close> it is false.
\<close>

theorem favorites_round_trip:
  assumes "\<not> getItem_rejects d" and "\<not> setItem_rejects d"
  shows "isFavorite (addFavorite now p d) (p_id p)
       \<and> \<not> isFavorite (removeFavorite (p_id p) (addFavorite now p d)) (p_id p)"
proof
  show "isFavorite (addFavorite now p d) (p_id p)"
    using assms by (rule isFavorite_addFavorite)
next
  have "getFavorites (removeFavorite (p_id p) (addFavorite now p d)) =
        filter (\<lambda>fav. f_id fav \<noteq> p_id p) (getFavorites (addFavorite now p d))"
    using assms by (simp add: getFavorites_removeFavorite addFavorite_def setFavorites_def
                              console_error_def Let_def)
  then show "\<not> isFavorite (removeFavorite (p_id p) (addFavorite now p d)) (p_id p)"
    by (simp add: isFavorite_def list_ex_iff)
qed

theorem favorites_round_trip_witness:
  "\<not> getItem_rejects empty_device \<and> \<not> setItem_rejects empty_device
   \<and> isFavorite (addFavorite 1000 (sample_product ''p1'') empty_device) ''p1''
   \<and> \<not> isFavorite (removeFavorite ''p1'' (addFavorite 1000 (sample_product ''p1'') empty_device)) ''p1''"
  using favorites_round_trip [of empty_device 1000 "sample_product ''p1''"]
  by (simp add: empty_device_def sample_product_def)

text \<open>
  \<^verbatim>\<open>addFavorite\<close> does the presence check: it changes nothing when an entry with
  \<^verbatim>\<open>p.id\<close> is present, writes the snapshot in front otherwise, and a second call
  changes nothing.
\<close>

lemma addFavorite_twice:
  assumes "\<not> getItem_rejects d" and "\<not> setItem_rejects d"
  shows "(isFavorite d (p_id p) \<longrightarrow> addFavorite now p d = d)
       \<and> (\<not> isFavorite d (p_id p) \<longrightarrow>
            addFavorite now p d = d\<lparr>favorites_item := Some (Json (newFav now p # getFavorites d))\<rparr>
            \<and> getFavorites (addFavorite now p d) = newFav now p # getFavorites d)
       \<and> addFavorite now' p (addFavorite now p d) = addFavorite now p d
       \<and> (entries_for (p_id p) d \<le> 1 \<longrightarrow>
            entries_for (p_id p) (addFavorite now' p (addFavorite now p d)) = 1)"
proof (intro conjI impI)
  assume "isFavorite d (p_id p)"
  then show "addFavorite now p d = d" by (rule addFavorite_present)
next
  assume a: "\<not> isFavorite d (p_id p)"
  show "addFavorite now p d = d\<lparr>favorites_item := Some (Json (newFav now p # getFavorites d))\<rparr>"
    using a assms by (simp add: addFavorite_absent)
  show "getFavorites (addFavorite now p d) = newFav now p # getFavorites d"
    using a assms by (simp add: getFavorites_addFavorite isFavorite_def)
next
  show twice: "addFavorite now' p (addFavorite now p d) = addFavorite now p d"
    using assms by (simp add: addFavorite_present isFavorite_addFavorite)
  assume "entries_for (p_id p) d \<le> 1"
  then show "entries_for (p_id p) (addFavorite now' p (addFavorite now p d)) = 1"
    using assms by (simp add: twice entries_for_addFavorite)
qed

lemma entries_for_distinct:
  assumes "distinct (map f_id (getFavorites d))"
  shows "entries_for i d \<le> 1"
proof -
  have "distinct (map f_id favs) \<Longrightarrow> length (filter (\<lambda>fav. f_id fav = i) favs) \<le> 1" for favs
  proof (induction favs)
    case Nil
    then show ?case by simp
  next
    case (Cons f favs)
    show ?case
    proof (cases "f_id f = i")
      case True
      then have "filter (\<lambda>fav. f_id fav = i) favs = []"
        using Cons.prems by (auto simp: filter_empty_conv image_iff)
      then show ?thesis using True by simp
    next
      case False
      then show ?thesis using Cons by simp
    qed
  qed
  from this [OF assms] show ?thesis by (simp add: entries_for_def)
qed

text \<open>The lists that \<^verbatim>\<open>addFavorite\<close> and \<^verbatim>\<open>removeFavorite\<close> write keep identifiers apart.\<close>

lemma distinct_addFavorite:
  assumes "\<not> getItem_rejects d" and "\<not> setItem_rejects d"
    and "distinct (map f_id (getFavorites d))"
  shows "distinct (map f_id (getFavorites (addFavorite now p d)))"
  using assms by (auto simp: getFavorites_addFavorite list_ex_iff)

lemma distinct_removeFavorite:
  assumes "\<not> getItem_rejects d" and "\<not> setItem_rejects d"
    and "distinct (map f_id (getFavorites d))"
  shows "distinct (map f_id (getFavorites (removeFavorite i d)))"
  using assms by (simp add: getFavorites_removeFavorite distinct_map_filter)

lemma addFavorite_twice_one_entry:
  assumes "\<not> getItem_rejects d" and "\<not> setItem_rejects d"
    and "distinct (map f_id (getFavorites d))"
  shows "entries_for (p_id p) (addFavorite now' p (addFavorite now p d)) = 1"
  using addFavorite_twice [OF assms(1,2), of p now now'] entries_for_distinct [OF assms(3), of "p_id p"]
  by blast

text \<open>
  C4 fails on the code. The product-detail \<^verbatim>\<open>toggleFavorite\<close> inserts on the
  screen's \<^verbatim>\<open>isFavorite\<close> flag, without the presence check of \<^verbatim>\<open>addFavorite\<close>:
  with the flag down and the product already stored, it writes a second entry for the
  same identifier in front of the first.
\<close>

theorem toggleFavorite_detail_second_entry:
  "isFavorite (addFavorite 1000 (sample_product ''p1'') empty_device) ''p1''
   \<and> entries_for ''p1'' (addFavorite 1000 (sample_product ''p1'') empty_device) = 1
   \<and> entries_for ''p1''
       (snd (toggleFavorite_detail 2000 (sample_product ''p1'') (Some ''Awa'') False
               (addFavorite 1000 (sample_product ''p1'') empty_device)))
     = 2"
  by (simp add: isFavorite_def entries_for_def addFavorite_def toggleFavorite_detail_def
                getFavorites_def getItem_def setFavorites_def empty_device_def sample_product_def
                newFav_def)

text \<open>
  C10. \<^verbatim>\<open>getFavorites\<close> always returns a list: the empty one when the read rejects,
  the key is absent or the stored string does not parse; \<^verbatim>\<open>isFavorite\<close> is then
  false for every identifier.
\<close>

theorem getFavorites_total:
  assumes "getItem_rejects d \<or> favorites_item d = None \<or> favorites_item d = Some Unparseable"
  shows "getFavorites d = [] \<and> (\<forall>productId. \<not> isFavorite d productId)"
  using assms by (auto simp: getFavorites_cases isFavorite_def)

theorem getFavorites_total_witness:
  "(getItem_rejects empty_device \<or> favorites_item empty_device = None
      \<or> favorites_item empty_device = Some Unparseable)
   \<and> getFavorites empty_device = [] \<and> \<not> isFavorite empty_device ''p1''"
  using getFavorites_total [of empty_device]
  by (simp add: empty_device_def)

section \<open>Properties of the discover feed\<close>

lemma ids_liked [simp]: "ids (map (\<lambda>p. p\<lparr>p_isLiked := f p\<rparr>) ps) = ids ps"
  by (simp add: ids_def)

lemma ids_append_new:
  "ids (append_new prev new) = ids prev @ filter (\<lambda>i. i \<notin> set (ids prev)) (ids new)"
  by (simp add: ids_def append_new_def filter_map comp_def)

lemma distinct_append_new:
  "distinct (ids prev) \<Longrightarrow> distinct (ids new) \<Longrightarrow> distinct (ids (append_new prev new))"
  by (auto simp: ids_append_new)

lemma set_ids_append_new: "set (ids (append_new prev new)) = set (ids prev) \<union> set (ids new)"
  by (auto simp: ids_append_new)

lemma append_new_filter:
  "append_new prev new = prev @ filter (\<lambda>p. p_id p \<notin> set (ids prev)) new"
  by (simp add: append_new_def ids_def)

lemma ids_take: "ids (take n ps) = take n (ids ps)"
  by (simp add: ids_def take_map)

lemma fetchProducts_settled_success:
  assumes "r_success data"
  shows "allProducts (fetchProducts_settled c rnd now pageNum False fr (Resolved data) st) =
           (let liked = map (\<lambda>p. p\<lparr>p_isLiked := isFavorite (dev_d st) (p_id p)\<rparr>) (r_products data)
            in if pageNum = 1 then liked else append_new (allProducts st) liked)"
    and "feedProducts (fetchProducts_settled c rnd now pageNum False fr (Resolved data) st) =
           (let liked = map (\<lambda>p. p\<lparr>p_isLiked := isFavorite (dev_d st) (p_id p)\<rparr>) (r_products data)
            in if pageNum = 1 then take ITEMS_PER_PAGE liked else append_new (feedProducts st) liked)"
  using assms by (simp_all add: fetchProducts_settled_def Let_def)

lemma fetchProducts_settled_failed:
  "failed r \<Longrightarrow>
   fetchProducts_settled c rnd now pageNum sh fr r st =
     (case r of Rejected \<Rightarrow> st\<lparr>dev_d := console_error ''Erreur fetchProducts:'' (dev_d st)\<rparr>
              | Resolved data \<Rightarrow> st)"
  by (simp add: failed_def fetchProducts_settled_def split: promise.splits)

lemma fetchProducts_settled_distinct:
  assumes "distinct (ids (allProducts st))" and "distinct (ids (feedProducts st))"
    and "case r of Rejected \<Rightarrow> True | Resolved data \<Rightarrow> distinct (ids (r_products data))"
  shows "distinct (ids (allProducts (fetchProducts_settled c rnd now pageNum False fr r st)))
       \<and> distinct (ids (feedProducts (fetchProducts_settled c rnd now pageNum False fr r st)))"
proof (cases r)
  case Rejected
  then show ?thesis using assms by (simp add: fetchProducts_settled_def)
next
  case (Resolved data)
  show ?thesis
  proof (cases "r_success data")
    case True
    then show ?thesis
      using assms Resolved
      by (simp add: fetchProducts_settled_success Let_def distinct_append_new ids_take)
  next
    case False
    then show ?thesis using assms Resolved by (simp add: fetchProducts_settled_def)
  qed
qed

lemma lists_loadMoreProducts [simp]:
  "allProducts (loadMoreProducts c st) = allProducts st"
  "feedProducts (loadMoreProducts c st) = feedProducts st"
  by (simp_all add: loadMoreProducts_def fetch_sent_def)

lemma step_distinct:
  assumes "distinct (ids (allProducts (live a)))" and "distinct (ids (feedProducts (live a)))"
    and "page_ids_distinct e"
  shows "distinct (ids (allProducts (live (step rnd e a))))
       \<and> distinct (ids (feedProducts (live (step rnd e a))))"
proof (cases e)
  case Render
  then show ?thesis using assms by simp
next
  case EndReached
  then show ?thesis using assms by simp
next
  case (Settled now r)
  show ?thesis
  proof (cases "pending a")
    case Nil
    then show ?thesis using assms Settled by simp
  next
    case (Cons pc rest)
    obtain pageNum c where pc: "pc = (pageNum, c)" by (cases pc)
    have "case r of Rejected \<Rightarrow> True | Resolved data \<Rightarrow> distinct (ids (r_products data))"
      using assms(3) Settled by (simp add: page_ids_distinct_def split: promise.splits)
    from fetchProducts_settled_distinct [OF assms(1,2) this, of c rnd now pageNum False]
    show ?thesis using Settled Cons pc by simp
  qed
qed

lemma run_distinct:
  assumes "distinct (ids (allProducts (live a)))" and "distinct (ids (feedProducts (live a)))"
    and "\<forall>e\<in>set es. page_ids_distinct e"
  shows "distinct (ids (allProducts (live (run rnd es a))))
       \<and> distinct (ids (feedProducts (live (run rnd es a))))"
  using assms
proof (induction es arbitrary: a)
  case Nil
  then show ?case by simp
next
  case (Cons e es)
  have "distinct (ids (allProducts (live (step rnd e a))))
      \<and> distinct (ids (feedProducts (live (step rnd e a))))"
    using Cons.prems by (intro step_distinct) simp_all
  then show ?case using Cons.IH [of "step rnd e a"] Cons.prems by simp
qed

text \<open>One completed load-more: the trigger, then the response.\<close>

lemma load_more_once:
  assumes "load_more_passes (seen a)" and "pending a = []" and "r_success data"
    and "cap_page (seen a) \<noteq> 0"
  shows "allProducts (live (run rnd [EndReached, Settled now (Resolved data)] a)) =
           allProducts (live a) @
           filter (\<lambda>p. p_id p \<notin> set (ids (allProducts (live a))))
             (map (\<lambda>p. p\<lparr>p_isLiked := isFavorite (dev_d (live a)) (p_id p)\<rparr>) (r_products data))"
    and "feedProducts (live (run rnd [EndReached, Settled now (Resolved data)] a)) =
           feedProducts (live a) @
           filter (\<lambda>p. p_id p \<notin> set (ids (feedProducts (live a))))
             (map (\<lambda>p. p\<lparr>p_isLiked := isFavorite (dev_d (live a)) (p_id p)\<rparr>) (r_products data))"
    and "set (ids (allProducts (live (run rnd [EndReached, Settled now (Resolved data)] a)))) =
           set (ids (allProducts (live a))) \<union> set (ids (r_products data))"
    and "set (ids (feedProducts (live (run rnd [EndReached, Settled now (Resolved data)] a)))) =
           set (ids (feedProducts (live a))) \<union> set (ids (r_products data))"
  using assms
  by (simp_all add: loadMoreProducts_def fetch_sent_def fetchProducts_settled_success Let_def
                    set_ids_append_new append_new_filter [symmetric])


text \<open>
  C1, as amended. On the discover feed, a completed load-more appends to
  \<^verbatim>\<open>allProducts\<close> and to \<^verbatim>\<open>feedProducts\<close> the items of the page whose identifier is
  not in that list yet, so that every identifier of the old list and of the page is in
  the new one. From lists without a repeated identifier, and with no page repeating an
  identifier within itself, any sequence of renders, load-more triggers and responses
  leaves both lists without a repeated identifier.
\<close>

theorem discover_load_more_unique:
  assumes "distinct (ids (allProducts (live a)))" and "distinct (ids (feedProducts (live a)))"
    and "\<forall>e\<in>set es. page_ids_distinct e"
  shows "distinct (ids (allProducts (live (run rnd es a))))
       \<and> distinct (ids (feedProducts (live (run rnd es a))))
       \<and> (load_more_passes (seen a) \<and> pending a = [] \<and> cap_page (seen a) \<noteq> 0 \<and> r_success data \<longrightarrow>
            allProducts (live (run rnd [EndReached, Settled now (Resolved data)] a)) =
              allProducts (live a) @
              filter (\<lambda>p. p_id p \<notin> set (ids (allProducts (live a))))
                (map (\<lambda>p. p\<lparr>p_isLiked := isFavorite (dev_d (live a)) (p_id p)\<rparr>) (r_products data))
            \<and> feedProducts (live (run rnd [EndReached, Settled now (Resolved data)] a)) =
              feedProducts (live a) @
              filter (\<lambda>p. p_id p \<notin> set (ids (feedProducts (live a))))
                (map (\<lambda>p. p\<lparr>p_isLiked := isFavorite (dev_d (live a)) (p_id p)\<rparr>) (r_products data))
            \<and> set (ids (allProducts (live (run rnd [EndReached, Settled now (Resolved data)] a)))) =
                set (ids (allProducts (live a))) \<union> set (ids (r_products data))
            \<and> set (ids (feedProducts (live (run rnd [EndReached, Settled now (Resolved data)] a)))) =
                set (ids (feedProducts (live a))) \<union> set (ids (r_products data)))"
proof (intro conjI impI)
  show "distinct (ids (allProducts (live (run rnd es a))))"
    and "distinct (ids (feedProducts (live (run rnd es a))))"
    using run_distinct [OF assms] by simp_all
next
  assume g: "load_more_passes (seen a) \<and> pending a = [] \<and> cap_page (seen a) \<noteq> 0 \<and> r_success data"
  then have g': "load_more_passes (seen a)" "pending a = []" "r_success data" "cap_page (seen a) \<noteq> 0"
    by simp_all
  show "allProducts (live (run rnd [EndReached, Settled now (Resolved data)] a)) =
              allProducts (live a) @
              filter (\<lambda>p. p_id p \<notin> set (ids (allProducts (live a))))
                (map (\<lambda>p. p\<lparr>p_isLiked := isFavorite (dev_d (live a)) (p_id p)\<rparr>) (r_products data))"
    by (rule load_more_once(1) [OF g'])
  show "feedProducts (live (run rnd [EndReached, Settled now (Resolved data)] a)) =
              feedProducts (live a) @
              filter (\<lambda>p. p_id p \<notin> set (ids (feedProducts (live a))))
                (map (\<lambda>p. p\<lparr>p_isLiked := isFavorite (dev_d (live a)) (p_id p)\<rparr>) (r_products data))"
    by (rule load_more_once(2) [OF g'])
  show "set (ids (allProducts (live (run rnd [EndReached, Settled now (Resolved data)] a)))) =
                set (ids (allProducts (live a))) \<union> set (ids (r_products data))"
    by (rule load_more_once(3) [OF g'])
  show "set (ids (feedProducts (live (run rnd [EndReached, Settled now (Resolved data)] a)))) =
                set (ids (feedProducts (live a))) \<union> set (ids (r_products data))"
    by (rule load_more_once(4) [OF g'])
qed

theorem discover_load_more_unique_witness:
  "distinct (ids (allProducts (live sample_app))) \<and> distinct (ids (feedProducts (live sample_app)))
   \<and> page_ids_distinct EndReached
   \<and> page_ids_distinct (Settled 1000 (Resolved (sample_response [sample_product ''p1'', sample_product ''p2''])))
   \<and> distinct (ids (allProducts (live (run (\<lambda>i. 0)
         [EndReached, Settled 1000 (Resolved (sample_response [sample_product ''p1'', sample_product ''p2'']))]
         sample_app))))
   \<and> distinct (ids (feedProducts (live (run (\<lambda>i. 0)
         [EndReached, Settled 1000 (Resolved (sample_response [sample_product ''p1'', sample_product ''p2'']))]
         sample_app))))
   \<and> ids (allProducts (live (run (\<lambda>i. 0)
         [EndReached, Settled 1000 (Resolved (sample_response [sample_product ''p1'', sample_product ''p2'']))]
         sample_app))) = [''p1'', ''p2'']
   \<and> ids (feedProducts (live (run (\<lambda>i. 0)
         [EndReached, Settled 1000 (Resolved (sample_response [sample_product ''p1'', sample_product ''p2'']))]
         sample_app))) = [''p1'', ''p2'']"
proof -
  let ?es = "[EndReached, Settled 1000 (Resolved (sample_response [sample_product ''p1'', sample_product ''p2'']))]"
  have h1: "distinct (ids (allProducts (live sample_app)))"
    and h2: "distinct (ids (feedProducts (live sample_app)))"
    by (simp_all add: sample_app_def sample_discover_def ids_def)
  have h3: "\<forall>e\<in>set ?es. page_ids_distinct e"
    by (simp add: page_ids_distinct_def sample_response_def sample_product_def ids_def)
  have h5: "page_ids_distinct EndReached"
    and h6: "page_ids_distinct (Settled 1000 (Resolved (sample_response [sample_product ''p1'', sample_product ''p2''])))"
    using h3 by simp_all
  have g: "load_more_passes (seen sample_app) \<and> pending sample_app = []
           \<and> cap_page (seen sample_app) \<noteq> 0
           \<and> r_success (sample_response [sample_product ''p1'', sample_product ''p2''])"
    by (simp add: sample_app_def sample_discover_def render_def load_more_passes_def
                  sample_response_def)
  have v: "allProducts (live sample_app) @
             filter (\<lambda>p. p_id p \<notin> set (ids (allProducts (live sample_app))))
               (map (\<lambda>p. p\<lparr>p_isLiked := isFavorite (dev_d (live sample_app)) (p_id p)\<rparr>)
                  (r_products (sample_response [sample_product ''p1'', sample_product ''p2'']))) =
           [sample_product ''p1'', sample_product ''p2'']"
       "feedProducts (live sample_app) @
             filter (\<lambda>p. p_id p \<notin> set (ids (feedProducts (live sample_app))))
               (map (\<lambda>p. p\<lparr>p_isLiked := isFavorite (dev_d (live sample_app)) (p_id p)\<rparr>)
                  (r_products (sample_response [sample_product ''p1'', sample_product ''p2'']))) =
           [sample_product ''p1'', sample_product ''p2'']"
    by (simp_all add: sample_app_def sample_discover_def sample_response_def sample_product_def
                      ids_def isFavorite_def getFavorites_def getItem_def empty_device_def)
  note T = discover_load_more_unique [OF h1 h2 h3, of "\<lambda>i. 0"
            "sample_response [sample_product ''p1'', sample_product ''p2'']" 1000]
  have d: "distinct (ids (allProducts (live (run (\<lambda>i. 0) ?es sample_app))))"
          "distinct (ids (feedProducts (live (run (\<lambda>i. 0) ?es sample_app))))"
    using T by simp_all
  have e: "allProducts (live (run (\<lambda>i. 0) ?es sample_app)) = [sample_product ''p1'', sample_product ''p2'']"
          "feedProducts (live (run (\<lambda>i. 0) ?es sample_app)) = [sample_product ''p1'', sample_product ''p2'']"
    using T [THEN conjunct2, THEN conjunct2, THEN mp, OF g] v by simp_all
  have i: "ids [sample_product ''p1'', sample_product ''p2''] = [''p1'', ''p2'']"
    by (simp add: ids_def sample_product_def)
  show ?thesis
    using h1 h2 h5 h6 d e i by simp
qed

text \<open>
  The claim C1 as stated fails: the search screen and the shop-detail screen append a
  page as it arrives, and the discover feed keeps an identifier that one page holds twice.
\<close>

theorem paginators_duplicate_counterexample:
  "ids (products_s (handleLoadMore ascii_trim ascii_lower ''tv''
          (Answered \<lparr> sr_success = True, sr_results = [sample_product ''p1''],
                      sr_page = 2, sr_total_pages = 3 \<rparr>)
          sample_search)) = [''p1'', ''p1'']
   \<and> ids (products_sd (loadMore_sd
          (Resolved \<lparr> sd_success = True, sd_products = [sample_product ''p1''],
                      sd_totalPages = 3, sd_page = 2 \<rparr>)
          sample_shopDetail)) = [''p1'', ''p1'']
   \<and> ids (feedProducts (live (run (\<lambda>i. 0)
          [EndReached,
           Settled 1000 (Resolved (sample_response [sample_product ''p2'', sample_product ''p2'']))]
          sample_app))) = [''p1'', ''p2'', ''p2'']"
  apply (intro conjI)
    apply (simp add: handleLoadMore_def handleSearch_def saveSearchHistory_def sample_search_def
        ascii_trim_def ascii_lower_def is_space_def ids_def sample_product_def Let_def empty_device_def)
   apply (simp add: loadMore_sd_def fetchShopData_def sample_shopDetail_def ids_def sample_product_def)
  apply (simp add: sample_app_def sample_discover_def sample_response_def loadMoreProducts_def
          load_more_passes_def render_def fetch_sent_def
          fetchProducts_settled_def append_new_def ids_def sample_product_def Let_def)
  done


lemma loadMoreProducts_blocked:
  "cap_loadingMore c \<or> \<not> cap_hasMore c \<Longrightarrow> loadMoreProducts c st = st"
  by (auto simp: loadMoreProducts_def load_more_passes_def)

lemma loadMoreProducts_passes:
  "\<not> cap_loadingMore c \<Longrightarrow> cap_hasMore c \<Longrightarrow>
   loadMoreProducts c st = st\<lparr>loadingMore := True, sent := sent st @ [cap_page c + 1]\<rparr>"
  by (simp add: loadMoreProducts_def load_more_passes_def fetch_sent_def)

text \<open>
  With a render between the events, each trigger sees the flag the last one set, and
  at most one call is pending.
\<close>

lemma rendered_step_guard:
  assumes "loadingMore (live a) \<longleftrightarrow> pending a \<noteq> []" and "length (pending a) \<le> 1"
  shows "(loadingMore (live (step rnd e (step rnd Render a)))
            \<longleftrightarrow> pending (step rnd e (step rnd Render a)) \<noteq> [])
       \<and> length (pending (step rnd e (step rnd Render a))) \<le> 1"
proof (cases e)
  case Render
  then show ?thesis using assms by simp
next
  case EndReached
  then show ?thesis using assms
    by (auto simp: loadMoreProducts_def load_more_passes_def render_def fetch_sent_def)
next
  case (Settled now r)
  then show ?thesis using assms
    by (cases "pending a") (auto split: prod.splits)
qed

text \<open>
  C8 fails on the code. The guard of \<^verbatim>\<open>loadMoreProducts\<close> reads the
  \<^verbatim>\<open>loadingMore\<close> its render captured, which \<^verbatim>\<open>setLoadingMore(true)\<close> does not
  change: two triggers handled by the callback of one render both pass it, and two
  requests for page 2 go out, both pending.
\<close>

theorem load_more_same_render_twice:
  "sent (live (run (\<lambda>i. 0) [EndReached, EndReached] sample_app)) = [2, 2]
   \<and> map fst (pending (run (\<lambda>i. 0) [EndReached, EndReached] sample_app)) = [2, 2]
   \<and> loadingMore (live (run (\<lambda>i. 0) [EndReached] sample_app))
   \<and> sent (live (run (\<lambda>i. 0) [EndReached, Render, EndReached] sample_app)) = [2]"
  by (simp add: sample_app_def sample_discover_def render_def loadMoreProducts_def
                load_more_passes_def fetch_sent_def)

text \<open>
  C7, as amended. When the request of \<^verbatim>\<open>fetchProducts\<close> rejects or the body's
  \<^verbatim>\<open>success\<close> is false, the lists, \<^verbatim>\<open>page\<close>, \<^verbatim>\<open>hasMore\<close> and the cache item
  keep their values: the state is the one before, but for the one request the call has
  made and for the line that a rejection, and only a rejection, adds to the console.
  No second request is made, and a failed load-more leaves no call pending.
\<close>

theorem fetchProducts_failure_keeps_state:
  assumes "failed r"
  shows "fetchProducts c rnd now pageNum shouldShuffle forceRefresh r st =
           st\<lparr>dev_d := (dev_d st)\<lparr>console := console (dev_d st) @
                                    (if r = Rejected then [''Erreur fetchProducts:''] else [])\<rparr>,
               sent := sent st @ [pageNum]\<rparr>
       \<and> allProducts (fetchProducts c rnd now pageNum shouldShuffle forceRefresh r st) = allProducts st
       \<and> feedProducts (fetchProducts c rnd now pageNum shouldShuffle forceRefresh r st) = feedProducts st
       \<and> page (fetchProducts c rnd now pageNum shouldShuffle forceRefresh r st) = page st
       \<and> hasMore (fetchProducts c rnd now pageNum shouldShuffle forceRefresh r st) = hasMore st
       \<and> discover_cache_item (dev_d (fetchProducts c rnd now pageNum shouldShuffle forceRefresh r st))
           = discover_cache_item (dev_d st)
       \<and> sent (fetchProducts c rnd now pageNum shouldShuffle forceRefresh r st) = sent st @ [pageNum]
       \<and> (pending a = (pageNum, c) # rest \<longrightarrow>
            pending (step rnd (Settled now r) a) = rest
            \<and> sent (live (step rnd (Settled now r) a)) = sent (live a)
            \<and> allProducts (live (step rnd (Settled now r) a)) = allProducts (live a)
            \<and> feedProducts (live (step rnd (Settled now r) a)) = feedProducts (live a)
            \<and> page (live (step rnd (Settled now r) a)) = page (live a)
            \<and> hasMore (live (step rnd (Settled now r) a)) = hasMore (live a))"
  using assms
  by (auto simp: fetchProducts_def fetch_sent_def fetchProducts_settled_failed console_error_def
           split: promise.splits)

theorem fetchProducts_failure_keeps_state_witness:
  "failed (Rejected :: response promise)
   \<and> allProducts (fetchProducts (render sample_discover) (\<lambda>i. 0) 1000 2 False False Rejected sample_discover)
       = allProducts sample_discover
   \<and> page (fetchProducts (render sample_discover) (\<lambda>i. 0) 1000 2 False False Rejected sample_discover)
       = page sample_discover
   \<and> hasMore (fetchProducts (render sample_discover) (\<lambda>i. 0) 1000 2 False False Rejected sample_discover)
       = hasMore sample_discover
   \<and> discover_cache_item
        (dev_d (fetchProducts (render sample_discover) (\<lambda>i. 0) 1000 2 False False Rejected sample_discover))
       = discover_cache_item (dev_d sample_discover)
   \<and> sent (fetchProducts (render sample_discover) (\<lambda>i. 0) 1000 2 False False Rejected sample_discover)
       = sent sample_discover @ [2]"
proof -
  have h: "failed (Rejected :: response promise)" by (simp add: failed_def)
  show ?thesis
    using fetchProducts_failure_keeps_state
            [OF h, of "render sample_discover" "\<lambda>i. 0" 1000 2 False False sample_discover]
      h
    by blast
qed

text \<open>
  The claim C7 as stated fails: a body with \<^verbatim>\<open>success\<close> false is dropped without a
  word, the console stays empty.
\<close>

theorem fetchProducts_silent_counterexample:
  "failed (Resolved \<lparr> r_success = False, r_products = [], r_totalPages = None \<rparr>)
   \<and> console (dev_d (fetchProducts (render sample_discover) (\<lambda>i. 0) 1000 2 False False
        (Resolved \<lparr> r_success = False, r_products = [], r_totalPages = None \<rparr>) sample_discover))
     = []"
  by (simp add: failed_def fetchProducts_def fetch_sent_def fetchProducts_settled_def
                sample_discover_def empty_device_def)

section \<open>Properties of the cache loaders\<close>

lemma loadCache_stored:
  assumes "\<not> getItem_rejects d" and "discover_cache_item d = Some (Json cache)"
  shows "loadCache now d = (if now - c_timestamp cache < 5 * 60 * 1000 then Some cache else None, d)"
  using assms by (simp add: loadCache_def getItem_def CACHE_EXPIRY_def)

lemma loadCache_shops_stored:
  assumes "\<not> getItem_rejects d" and "shops_cache_item d = Some (Json cache)"
  shows "loadCache_shops now d =
           (if now - e_timestamp cache < 5 * 60 * 1000 then Some (e_data cache) else None, d)"
  using assms by (simp add: loadCache_shops_def getItem_def CACHE_EXPIRY_def)

lemma loadCache_promo_stored:
  assumes "\<not> getItem_rejects d" and "promo_cache_item d = Some (Json cache)"
  shows "loadCache_promo now d =
           (if now - e_timestamp cache < 5 * 60 * 1000 then Some (e_data cache) else None, d)"
  using assms by (simp add: loadCache_promo_def getItem_def CACHE_EXPIRY_def)

lemma loadInitialData_stored:
  assumes "\<not> getItem_rejects (dev_d st)" and "discover_cache_item (dev_d st) = Some (Json cache)"
  shows "loadInitialData now st =
           (if now - c_timestamp cache < 5 * 60 * 1000
            then st\<lparr> allProducts := c_products cache,
                     feedProducts := take 10 (c_products cache),
                     shops := c_shops cache,
                     trendingProducts := c_trending cache,
                     isCacheLoaded := True,
                     loading := False \<rparr>
            else st)"
  using assms by (simp add: loadInitialData_def loadCache_stored ITEMS_PER_PAGE_def)

lemma loadData_stored:
  assumes "\<not> getItem_rejects (dev_a st)" and "shops_cache_item (dev_a st) = Some (Json cache)"
  shows "loadData now st =
           (if now - e_timestamp cache < 5 * 60 * 1000
            then st\<lparr> allShops := e_data cache,
                     displayedShops := take 5 (e_data cache),
                     hasMore_a := (5 < length (e_data cache)),
                     loading_a := False \<rparr>
            else st)"
  using assms
  by (simp add: loadData_def loadCache_shops_stored applyPagination_def ITEMS_PER_PAGE_local_def)

lemma loadData_promo_stored:
  assumes "\<not> getItem_rejects (dev_p st)" and "promo_cache_item (dev_p st) = Some (Json cache)"
  shows "loadData_promo now st =
           (if now - e_timestamp cache < 5 * 60 * 1000
            then st\<lparr> allProducts_p := e_data cache,
                     displayedProducts := take 5 (e_data cache),
                     hasMore_p := (5 < length (e_data cache)),
                     loading_p := False \<rparr>
            else st)"
  using assms
  by (simp add: loadData_promo_def loadCache_promo_stored applyPagination_promo_def
                ITEMS_PER_PAGE_local_def)

text \<open>
  C2. For each of the three cache loaders, with the envelope stored and readable:
  \<^verbatim>\<open>loadCache\<close> returns the payload exactly when \<^verbatim>\<open>now - timestamp\<close> is below five
  minutes, and the screen is then rendered from it; otherwise \<^verbatim>\<open>loadCache\<close> returns
  null and the screen keeps its state. An envelope four minutes old is used, one six
  minutes old is not.
\<close>

theorem cache_used_iff_fresh:
  assumes "\<not> getItem_rejects (dev_d st)" and "discover_cache_item (dev_d st) = Some (Json cache)"
    and "\<not> getItem_rejects (dev_a sa)" and "shops_cache_item (dev_a sa) = Some (Json scache)"
    and "\<not> getItem_rejects (dev_p sp)" and "promo_cache_item (dev_p sp) = Some (Json pcache)"
  shows "(fst (loadCache now (dev_d st)) = Some cache \<longleftrightarrow> now - c_timestamp cache < 5 * 60 * 1000)
       \<and> (fst (loadCache now (dev_d st)) = None \<longleftrightarrow> \<not> now - c_timestamp cache < 5 * 60 * 1000)
       \<and> loadInitialData now st =
           (if now - c_timestamp cache < 5 * 60 * 1000
            then st\<lparr> allProducts := c_products cache,
                     feedProducts := take 10 (c_products cache),
                     shops := c_shops cache,
                     trendingProducts := c_trending cache,
                     isCacheLoaded := True,
                     loading := False \<rparr>
            else st)
       \<and> (fst (loadCache_shops now (dev_a sa)) = Some (e_data scache)
            \<longleftrightarrow> now - e_timestamp scache < 5 * 60 * 1000)
       \<and> (fst (loadCache_shops now (dev_a sa)) = None
            \<longleftrightarrow> \<not> now - e_timestamp scache < 5 * 60 * 1000)
       \<and> loadData now sa =
           (if now - e_timestamp scache < 5 * 60 * 1000
            then sa\<lparr> allShops := e_data scache,
                     displayedShops := take 5 (e_data scache),
                     hasMore_a := (5 < length (e_data scache)),
                     loading_a := False \<rparr>
            else sa)
       \<and> (fst (loadCache_promo now (dev_p sp)) = Some (e_data pcache)
            \<longleftrightarrow> now - e_timestamp pcache < 5 * 60 * 1000)
       \<and> (fst (loadCache_promo now (dev_p sp)) = None
            \<longleftrightarrow> \<not> now - e_timestamp pcache < 5 * 60 * 1000)
       \<and> loadData_promo now sp =
           (if now - e_timestamp pcache < 5 * 60 * 1000
            then sp\<lparr> allProducts_p := e_data pcache,
                     displayedProducts := take 5 (e_data pcache),
                     hasMore_p := (5 < length (e_data pcache)),
                     loading_p := False \<rparr>
            else sp)
       \<and> (c_timestamp cache = now - 4 * 60 * 1000 \<longrightarrow>
            fst (loadCache now (dev_d st)) = Some cache
            \<and> allProducts (loadInitialData now st) = c_products cache)
       \<and> (c_timestamp cache = now - 6 * 60 * 1000 \<longrightarrow>
            fst (loadCache now (dev_d st)) = None \<and> loadInitialData now st = st)
       \<and> (e_timestamp scache = now - 4 * 60 * 1000 \<longrightarrow>
            fst (loadCache_shops now (dev_a sa)) = Some (e_data scache)
            \<and> allShops (loadData now sa) = e_data scache)
       \<and> (e_timestamp scache = now - 6 * 60 * 1000 \<longrightarrow>
            fst (loadCache_shops now (dev_a sa)) = None \<and> loadData now sa = sa)
       \<and> (e_timestamp pcache = now - 4 * 60 * 1000 \<longrightarrow>
            fst (loadCache_promo now (dev_p sp)) = Some (e_data pcache)
            \<and> allProducts_p (loadData_promo now sp) = e_data pcache)
       \<and> (e_timestamp pcache = now - 6 * 60 * 1000 \<longrightarrow>
            fst (loadCache_promo now (dev_p sp)) = None \<and> loadData_promo now sp = sp)"
proof -
  note d = loadCache_stored [OF assms(1,2), of now] loadInitialData_stored [OF assms(1,2), of now]
  note a = loadCache_shops_stored [OF assms(3,4), of now] loadData_stored [OF assms(3,4), of now]
  note p = loadCache_promo_stored [OF assms(5,6), of now] loadData_promo_stored [OF assms(5,6), of now]
  have "(fst (loadCache now (dev_d st)) = Some cache \<longleftrightarrow> now - c_timestamp cache < 5 * 60 * 1000)
      \<and> (fst (loadCache now (dev_d st)) = None \<longleftrightarrow> \<not> now - c_timestamp cache < 5 * 60 * 1000)
      \<and> (c_timestamp cache = now - 4 * 60 * 1000 \<longrightarrow>
            fst (loadCache now (dev_d st)) = Some cache
            \<and> allProducts (loadInitialData now st) = c_products cache)
      \<and> (c_timestamp cache = now - 6 * 60 * 1000 \<longrightarrow>
            fst (loadCache now (dev_d st)) = None \<and> loadInitialData now st = st)"
    by (simp add: d)
  moreover
  have "(fst (loadCache_shops now (dev_a sa)) = Some (e_data scache)
            \<longleftrightarrow> now - e_timestamp scache < 5 * 60 * 1000)
      \<and> (fst (loadCache_shops now (dev_a sa)) = None
            \<longleftrightarrow> \<not> now - e_timestamp scache < 5 * 60 * 1000)
      \<and> (e_timestamp scache = now - 4 * 60 * 1000 \<longrightarrow>
            fst (loadCache_shops now (dev_a sa)) = Some (e_data scache)
            \<and> allShops (loadData now sa) = e_data scache)
      \<and> (e_timestamp scache = now - 6 * 60 * 1000 \<longrightarrow>
            fst (loadCache_shops now (dev_a sa)) = None \<and> loadData now sa = sa)"
    by (simp add: a)
  moreover
  have "(fst (loadCache_promo now (dev_p sp)) = Some (e_data pcache)
            \<longleftrightarrow> now - e_timestamp pcache < 5 * 60 * 1000)
      \<and> (fst (loadCache_promo now (dev_p sp)) = None
            \<longleftrightarrow> \<not> now - e_timestamp pcache < 5 * 60 * 1000)
      \<and> (e_timestamp pcache = now - 4 * 60 * 1000 \<longrightarrow>
            fst (loadCache_promo now (dev_p sp)) = Some (e_data pcache)
            \<and> allProducts_p (loadData_promo now sp) = e_data pcache)
      \<and> (e_timestamp pcache = now - 6 * 60 * 1000 \<longrightarrow>
            fst (loadCache_promo now (dev_p sp)) = None \<and> loadData_promo now sp = sp)"
    by (simp add: p)
  ultimately show ?thesis
    using d(2) a(2) p(2) by blast
qed

theorem cache_used_iff_fresh_witness:
  "(\<not> getItem_rejects (dev_d (cached_discover 760000))
      \<and> discover_cache_item (dev_d (cached_discover 760000)) = Some (Json (sample_cache 760000))
      \<and> \<not> getItem_rejects (dev_a (cached_allShops 760000))
      \<and> shops_cache_item (dev_a (cached_allShops 760000))
          = Some (Json \<lparr> e_timestamp = 760000, e_data = [sample_shop] \<rparr>)
      \<and> \<not> getItem_rejects (dev_p (cached_promo 760000))
      \<and> promo_cache_item (dev_p (cached_promo 760000))
          = Some (Json \<lparr> e_timestamp = 760000, e_data = [sample_product ''p1''] \<rparr>))
   \<and> c_timestamp (sample_cache 760000) = 1000000 - 4 * 60 * 1000
   \<and> fst (loadCache 1000000 (dev_d (cached_discover 760000))) = Some (sample_cache 760000)
   \<and> allProducts (loadInitialData 1000000 (cached_discover 760000))
       = c_products (sample_cache 760000)
   \<and> fst (loadCache_shops 1000000 (dev_a (cached_allShops 760000))) = Some [sample_shop]
   \<and> fst (loadCache_promo 1000000 (dev_p (cached_promo 760000))) = Some [sample_product ''p1'']
   \<and> (\<not> getItem_rejects (dev_d (cached_discover 640000))
      \<and> discover_cache_item (dev_d (cached_discover 640000)) = Some (Json (sample_cache 640000))
      \<and> \<not> getItem_rejects (dev_a (cached_allShops 640000))
      \<and> shops_cache_item (dev_a (cached_allShops 640000))
          = Some (Json \<lparr> e_timestamp = 640000, e_data = [sample_shop] \<rparr>)
      \<and> \<not> getItem_rejects (dev_p (cached_promo 640000))
      \<and> promo_cache_item (dev_p (cached_promo 640000))
          = Some (Json \<lparr> e_timestamp = 640000, e_data = [sample_product ''p1''] \<rparr>))
   \<and> c_timestamp (sample_cache 640000) = 1000000 - 6 * 60 * 1000
   \<and> fst (loadCache 1000000 (dev_d (cached_discover 640000))) = None
   \<and> loadInitialData 1000000 (cached_discover 640000) = cached_discover 640000
   \<and> fst (loadCache_shops 1000000 (dev_a (cached_allShops 640000))) = None
   \<and> fst (loadCache_promo 1000000 (dev_p (cached_promo 640000))) = None"
proof -
  have a: "\<not> getItem_rejects (dev_d (cached_discover ts))"
       "discover_cache_item (dev_d (cached_discover ts)) = Some (Json (sample_cache ts))"
       "\<not> getItem_rejects (dev_a (cached_allShops ts))"
       "shops_cache_item (dev_a (cached_allShops ts))
          = Some (Json \<lparr> e_timestamp = ts, e_data = [sample_shop] \<rparr>)"
       "\<not> getItem_rejects (dev_p (cached_promo ts))"
       "promo_cache_item (dev_p (cached_promo ts))
          = Some (Json \<lparr> e_timestamp = ts, e_data = [sample_product ''p1''] \<rparr>)" for ts
    by (simp_all add: cached_discover_def cached_allShops_def cached_promo_def empty_device_def)
  have t: "c_timestamp (sample_cache 760000) = 1000000 - 4 * 60 * 1000"
          "c_timestamp (sample_cache 640000) = 1000000 - 6 * 60 * 1000"
          "e_timestamp \<lparr> e_timestamp = 760000, e_data = [sample_shop] \<rparr> = 1000000 - 4 * 60 * 1000"
          "e_timestamp \<lparr> e_timestamp = 640000, e_data = [sample_shop] \<rparr> = 1000000 - 6 * 60 * 1000"
          "e_timestamp \<lparr> e_timestamp = 760000, e_data = [sample_product ''p1''] \<rparr>
             = 1000000 - 4 * 60 * 1000"
          "e_timestamp \<lparr> e_timestamp = 640000, e_data = [sample_product ''p1''] \<rparr>
             = 1000000 - 6 * 60 * 1000"
          "e_data \<lparr> e_timestamp = 760000, e_data = [sample_shop] \<rparr> = [sample_shop]"
          "e_data \<lparr> e_timestamp = 760000, e_data = [sample_product ''p1''] \<rparr> = [sample_product ''p1'']"
    by (simp_all add: sample_cache_def)
  show ?thesis
    using cache_used_iff_fresh [OF a [of 760000], of 1000000]
          cache_used_iff_fresh [OF a [of 640000], of 1000000] a t
    by metis
qed

section \<open>Properties of the local pages\<close>

lemma loadMore_blocked:
  "loadingMore_a st \<or> \<not> hasMore_a st \<Longrightarrow> loadMore st = st"
  "loadingMore_p sp \<or> \<not> hasMore_p sp \<Longrightarrow> loadMore_promo sp = sp"
  by (simp_all add: loadMore_def loadMore_promo_def)

lemma loadMore_next:
  "\<not> loadingMore_a st \<Longrightarrow> hasMore_a st \<Longrightarrow>
   displayedShops (loadMore st) = take (5 * (page_a st + 1)) (allShops st)
   \<and> page_a (loadMore st) = page_a st + 1"
  by (simp add: loadMore_def applyPagination_def ITEMS_PER_PAGE_local_def Let_def mult.commute)

lemma take_min_length: "take (min k (length xs)) xs = take k xs"
  by (simp add: min_def)

lemma applyPagination_fields:
  "displayedShops (applyPagination L n st) = take (5 * n) L"
  "hasMore_a (applyPagination L n st) = (5 * n < length L)"
  by (simp_all add: applyPagination_def ITEMS_PER_PAGE_local_def Let_def mult.commute)

lemma applyPagination_promo_fields:
  "displayedProducts (applyPagination_promo M n sp) = take (5 * n) M"
  "hasMore_p (applyPagination_promo M n sp) = (5 * n < length M)"
  by (simp_all add: applyPagination_promo_def ITEMS_PER_PAGE_local_def Let_def mult.commute)

text \<open>
  C9. On the all-shops and promo-products screens, \<^verbatim>\<open>applyPagination(L, n)\<close> shows
  the first \<open>min (5 * n) |L|\<close> elements of \<open>L\<close>, in their order, and sets
  \<^verbatim>\<open>hasMore\<close> exactly when \<open>5 * n < |L|\<close>.
\<close>

theorem applyPagination_prefix:
  "displayedShops (applyPagination L n st) = take (min (5 * n) (length L)) L
   \<and> length (displayedShops (applyPagination L n st)) = min (5 * n) (length L)
   \<and> prefix (displayedShops (applyPagination L n st)) L
   \<and> hasMore_a (applyPagination L n st) = (5 * n < length L)
   \<and> displayedProducts (applyPagination_promo M n sp) = take (min (5 * n) (length M)) M
   \<and> length (displayedProducts (applyPagination_promo M n sp)) = min (5 * n) (length M)
   \<and> prefix (displayedProducts (applyPagination_promo M n sp)) M
   \<and> hasMore_p (applyPagination_promo M n sp) = (5 * n < length M)"
  by (auto simp: applyPagination_fields applyPagination_promo_fields take_min_length
                 take_is_prefix)

section \<open>Properties of the search history\<close>

lemma saveSearchHistory_history:
  "trim q \<noteq> [] \<Longrightarrow>
   searchHistory (saveSearchHistory trim lower q st) =
     take 10 (trim q # filter (\<lambda>item. lower item \<noteq> lower (trim q)) (searchHistory st))"
  by (simp add: saveSearchHistory_def Let_def)

lemma saveSearchHistory_persisted:
  "trim q \<noteq> [] \<Longrightarrow> \<not> setItem_rejects (dev_s st) \<Longrightarrow>
   history_item (dev_s (saveSearchHistory trim lower q st)) =
     Some (Json (searchHistory (saveSearchHistory trim lower q st)))"
  by (simp add: saveSearchHistory_def Let_def)

lemma saveSearchHistory_blank:
  "trim q = [] \<Longrightarrow> saveSearchHistory trim lower q st = st"
  by (simp add: saveSearchHistory_def)

lemma insert_queries_snoc:
  "insert_queries trim lower (qs @ [q]) st =
     saveSearchHistory trim lower q (insert_queries trim lower qs st)"
  by (induction qs arbitrary: st) simp_all

lemma front_kept:
  assumes "prefix (take n A) H" and "\<forall>x\<in>set A. P x" and "0 < n"
  shows "prefix (take n (t # A)) (take n (t # filter P H))"
proof -
  obtain R where H: "H = take n A @ R"
    using assms(1) by (auto elim: prefixE)
  obtain m where n: "n = Suc m"
    using assms(3) by (cases n) auto
  have "\<forall>x\<in>set (take n A). P x"
    using assms(2) by (meson in_set_takeD)
  then have "filter P H = take n A @ filter P R"
    by (simp add: H)
  then have "take n (t # filter P H) =
             t # take m A @ take (m - length (take (Suc m) A)) (filter P R)"
    by (simp add: n min_def)
  then show ?thesis
    by (simp add: n)
qed

lemma insert_queries_front:
  assumes "distinct (map (\<lambda>q. lower (trim q)) qs)" and "\<forall>q\<in>set qs. trim q \<noteq> []"
  shows "prefix (take 10 (rev (map trim qs))) (searchHistory (insert_queries trim lower qs st))"
  using assms
proof (induction qs rule: rev_induct)
  case Nil
  then show ?case by simp
next
  case (snoc q qs)
  have IH: "prefix (take 10 (rev (map trim qs))) (searchHistory (insert_queries trim lower qs st))"
    using snoc by simp
  have pass: "\<forall>x\<in>set (rev (map trim qs)). lower x \<noteq> lower (trim q)"
    using snoc.prems(1) by (auto simp: image_iff)
  have "trim q \<noteq> []" using snoc.prems(2) by simp
  then have "searchHistory (insert_queries trim lower (qs @ [q]) st) =
        take 10 (trim q # filter (\<lambda>item. lower item \<noteq> lower (trim q))
                                 (searchHistory (insert_queries trim lower qs st)))"
    by (simp add: insert_queries_snoc saveSearchHistory_history)
  moreover have "prefix (take 10 (trim q # rev (map trim qs)))
        (take 10 (trim q # filter (\<lambda>item. lower item \<noteq> lower (trim q))
                                  (searchHistory (insert_queries trim lower qs st))))"
    using front_kept [OF IH pass, of "trim q"] by simp
  ultimately show ?case by simp
qed

lemma insert_queries_length:
  assumes "qs \<noteq> []" and "\<forall>q\<in>set qs. trim q \<noteq> []"
  shows "length (searchHistory (insert_queries trim lower qs st)) \<le> 10"
  using assms
proof (induction qs rule: rev_induct)
  case Nil
  then show ?case by simp
next
  case (snoc q qs)
  then have "trim q \<noteq> []" by simp
  then show ?case
    by (simp add: insert_queries_snoc saveSearchHistory_history)
qed

lemma insert_queries_ten:
  assumes "distinct (map (\<lambda>q. lower (trim q)) qs)" and "\<forall>q\<in>set qs. trim q \<noteq> []"
    and "10 \<le> length qs"
  shows "searchHistory (insert_queries trim lower qs st) = take 10 (rev (map trim qs))"
proof -
  obtain R where R: "searchHistory (insert_queries trim lower qs st) = take 10 (rev (map trim qs)) @ R"
    using insert_queries_front [OF assms(1,2), of st] by (auto elim: prefixE)
  have "qs \<noteq> []" using assms(3) by auto
  then have "length (searchHistory (insert_queries trim lower qs st)) \<le> 10"
    using assms(2) by (rule insert_queries_length)
  moreover have "length (take 10 (rev (map trim qs))) = 10"
    using assms(3) by simp
  ultimately have "R = []" using R by simp
  then show ?thesis using R by simp
qed

text \<open>
  C5. For a query that is not blank, \<^verbatim>\<open>saveSearchHistory\<close> puts the trimmed query
  in front of the entries that differ from it when both are lower-cased, and keeps the
  first ten: the list has at most ten entries, the trimmed query is its head and its
  only entry equal to the query up to case. Eleven queries that are pairwise different
  up to case and surrounding blanks leave the ten last ones, the latest first.
\<close>

theorem search_history_insert:
  assumes "trim q \<noteq> []"
  shows "searchHistory (saveSearchHistory trim lower q st) =
           take 10 (trim q # filter (\<lambda>item. lower item \<noteq> lower (trim q)) (searchHistory st))
       \<and> length (searchHistory (saveSearchHistory trim lower q st)) \<le> 10
       \<and> hd (searchHistory (saveSearchHistory trim lower q st)) = trim q
       \<and> length (filter (\<lambda>item. lower item = lower (trim q))
                   (searchHistory (saveSearchHistory trim lower q st))) = 1
       \<and> (distinct (map (\<lambda>q. lower (trim q)) qs) \<and> (\<forall>q\<in>set qs. trim q \<noteq> []) \<and> length qs = 11 \<longrightarrow>
            searchHistory (insert_queries trim lower qs st) = rev (map trim (drop 1 qs)))"
proof -
  let ?rest = "filter (\<lambda>item. lower item \<noteq> lower (trim q)) (searchHistory st)"
  have H: "searchHistory (saveSearchHistory trim lower q st) = take 10 (trim q # ?rest)"
    using assms by (rule saveSearchHistory_history)
  have once: "length (filter (\<lambda>item. lower item = lower (trim q)) (take 10 (trim q # ?rest))) = 1"
  proof -
    have "filter (\<lambda>item. lower item = lower (trim q)) (take 9 ?rest) = []"
      by (auto simp: filter_empty_conv dest: in_set_takeD)
    then show ?thesis by simp
  qed
  have eleven: "searchHistory (insert_queries trim lower qs st) = rev (map trim (drop 1 qs))"
    if "distinct (map (\<lambda>q. lower (trim q)) qs)" "\<forall>q\<in>set qs. trim q \<noteq> []" "length qs = 11"
  proof -
    have "searchHistory (insert_queries trim lower qs st) = take 10 (rev (map trim qs))"
      using that by (intro insert_queries_ten) simp_all
    also have "\<dots> = rev (map trim (drop 1 qs))"
      using that(3) by (simp add: take_rev drop_map)
    finally show ?thesis .
  qed
  show ?thesis
    using H once eleven by simp
qed

theorem search_history_insert_witness:
  "ascii_trim '' Radio '' \<noteq> []
   \<and> searchHistory (saveSearchHistory ascii_trim ascii_lower '' Radio ''
        (sample_search\<lparr>searchHistory := [''tv'', ''radio'']\<rparr>)) = [''Radio'', ''tv'']
   \<and> length (filter (\<lambda>item. ascii_lower item = ascii_lower (ascii_trim '' Radio ''))
        (searchHistory (saveSearchHistory ascii_trim ascii_lower '' Radio ''
           (sample_search\<lparr>searchHistory := [''tv'', ''radio'']\<rparr>)))) = 1
   \<and> distinct (map (\<lambda>q. ascii_lower (ascii_trim q)) sample_queries)
   \<and> list_all (\<lambda>q. ascii_trim q \<noteq> []) sample_queries
   \<and> length sample_queries = 11
   \<and> searchHistory (insert_queries ascii_trim ascii_lower sample_queries
        (sample_search\<lparr>searchHistory := [''tv'', ''radio'']\<rparr>))
       = rev (map ascii_trim (drop 1 sample_queries))"
proof -
  have h1: "ascii_trim '' Radio '' \<noteq> []"
    by (simp add: ascii_trim_def is_space_def)
  have h2: "distinct (map (\<lambda>q. ascii_lower (ascii_trim q)) sample_queries)
        \<and> (\<forall>q\<in>set sample_queries. ascii_trim q \<noteq> []) \<and> length sample_queries = 11"
    by code_simp
  have h3: "take 10 (ascii_trim '' Radio '' #
              filter (\<lambda>item. ascii_lower item \<noteq> ascii_lower (ascii_trim '' Radio ''))
                (searchHistory (sample_search\<lparr>searchHistory := [''tv'', ''radio'']\<rparr>)))
            = [''Radio'', ''tv'']"
    by code_simp
  have h4: "list_all (\<lambda>q. ascii_trim q \<noteq> []) sample_queries"
    using h2 by (simp add: list_all_iff)
  show ?thesis
    using search_history_insert [where trim = ascii_trim and lower = ascii_lower
            and q = "'' Radio ''" and qs = sample_queries
            and st = "sample_search\<lparr>searchHistory := [''tv'', ''radio'']\<rparr>", OF h1]
      h1 h2 h3 h4
    by metis
qed

section \<open>Properties of the distance\<close>

lemma atan2_sin_cos:
  assumes "0 < t" and "t < pi / 2"
  shows "atan2 (sqrt (sin t * sin t)) (sqrt (1 - sin t * sin t)) = t"
proof -
  have s: "0 < sin t" using assms by (intro sin_gt_zero) auto
  have c: "0 < cos t" using assms by (intro cos_gt_zero) auto
  have "1 - sin t * sin t = cos t * cos t"
    using sin_cos_squared_add [of t] by (simp add: power2_eq_square algebra_simps)
  then have "sqrt (1 - sin t * sin t) = cos t" using c by simp
  moreover have "sqrt (sin t * sin t) = sin t" using s by simp
  moreover have "arctan (sin t / cos t) = t"
    using arctan_tan [of t] assms by (simp add: tan_def)
  ultimately show ?thesis using c by (simp add: atan2_def)
qed

lemma half_degree:
  "atan2 (sqrt (sin (pi / 360) * sin (pi / 360))) (sqrt (1 - sin (pi / 360) * sin (pi / 360)))
     = pi / 360"
  by (rule atan2_sin_cos) simp_all

text \<open>Bounds on \<open>pi\<close> from \<open>sin (pi / 6) = 1 / 2\<close> and the series of the sine.\<close>

lemma sin_pi6_bounds:
  "\<bar>1 / 2 - (pi / 6 - (pi / 6) ^ 3 / 6)\<bar> \<le> (pi / 6) ^ 5 / 120"
proof -
  have b: "\<bar>sin (pi / 6) - (\<Sum>m<5. sin_coeff m * (pi / 6) ^ m)\<bar> \<le> inverse (fact 5) * \<bar>pi / 6\<bar> ^ 5"
    by (rule Maclaurin_sin_bound)
  have S: "(\<Sum>m<5. sin_coeff m * (pi / 6) ^ m) = pi / 6 - (pi / 6) ^ 3 / 6"
    by (simp add: eval_nat_numeral sin_coeff_Suc cos_coeff_Suc)
  have F: "inverse (fact 5 :: real) = 1 / 120"
    by (simp add: eval_nat_numeral)
  have A: "\<bar>pi / 6\<bar> = pi / 6" by simp
  have "\<bar>1 / 2 - (pi / 6 - (pi / 6) ^ 3 / 6)\<bar> \<le> 1 / 120 * (pi / 6) ^ 5"
    using b unfolding S F A sin_30 .
  then show ?thesis by simp
qed

lemma pi6_ge_half: "1 / 2 \<le> pi / 6"
  using sin_x_le_x [of "pi / 6"] by (simp add: sin_30)

lemma pi6_lower: "52 / 100 < pi / 6"
proof (rule ccontr)
  let ?t = "pi / 6"
  assume "\<not> 52 / 100 < ?t"
  then have le: "?t \<le> 52 / 100" by simp
  have ge: "1 / 2 \<le> ?t" by (rule pi6_ge_half)
  have p3: "(1 / 2) ^ 3 \<le> ?t ^ 3" using ge by (intro power_mono) auto
  have p5: "?t ^ 5 \<le> (52 / 100) ^ 5" using le by (intro power_mono) auto
  have "1 / 2 \<le> ?t - ?t ^ 3 / 6 + ?t ^ 5 / 120"
    using sin_pi6_bounds by linarith
  also have "\<dots> \<le> 52 / 100 - (1 / 2) ^ 3 / 6 + (52 / 100) ^ 5 / 120"
    using le p3 p5 by linarith
  also have "\<dots> < 1 / 2" by (simp add: power_divide eval_nat_numeral)
  finally show False by simp
qed

lemma pi6_upper: "pi / 6 < 527 / 1000"
proof -
  let ?t = "pi / 6"
  have t0: "0 < ?t" by simp
  have low: "?t - ?t ^ 3 / 6 - ?t ^ 5 / 120 \<le> 1 / 2"
    using sin_pi6_bounds by linarith
  have shrink: "?t \<le> (1 / 2) / (1 - b ^ 2 / 6 - b ^ 4 / 120)"
    if b: "?t \<le> b" and pos: "0 < 1 - b ^ 2 / 6 - b ^ 4 / 120" for b
  proof -
    have "?t ^ 2 \<le> b ^ 2" "?t ^ 4 \<le> b ^ 4"
      using b t0 by (auto intro!: power_mono)
    then have "1 - b ^ 2 / 6 - b ^ 4 / 120 \<le> 1 - ?t ^ 2 / 6 - ?t ^ 4 / 120" by linarith
    then have "?t * (1 - b ^ 2 / 6 - b ^ 4 / 120) \<le> ?t * (1 - ?t ^ 2 / 6 - ?t ^ 4 / 120)"
      using t0 by (intro mult_left_mono) auto
    also have "\<dots> = ?t - ?t ^ 3 / 6 - ?t ^ 5 / 120"
      by (simp add: algebra_simps power2_eq_square power3_eq_cube eval_nat_numeral)
    finally have "?t * (1 - b ^ 2 / 6 - b ^ 4 / 120) \<le> 1 / 2" using low by linarith
    then show ?thesis using pos by (simp only: pos_le_divide_eq)
  qed
  have "?t \<le> 2 / 3" using pi_less_4 by simp
  from shrink [OF this] have "?t \<le> 55 / 100"
    by (simp add: power_divide eval_nat_numeral)
  from shrink [OF this] show ?thesis
    by (simp add: power_divide eval_nat_numeral)
qed

text \<open>
  C6. \<^verbatim>\<open>calculateDistance\<close> is the haversine formula with radius 6371, over the real
  numbers: the distance from a point to itself is 0, at \<open>(0, 0)\<close> in particular, and
  two points one degree of latitude apart, on any meridian, are \<open>6371 * pi / 180\<close>
  km apart, which is within 1 km of 111.
\<close>

theorem calculateDistance_fixtures:
  "calculateDistance lat lon lat lon = 0
   \<and> calculateDistance 0 0 0 0 = 0
   \<and> calculateDistance lat lon (lat + 1) lon = 6371 * pi / 180
   \<and> calculateDistance (lat + 1) lon lat lon = 6371 * pi / 180
   \<and> \<bar>calculateDistance lat lon (lat + 1) lon - 111\<bar> < 1
   \<and> calculateDistance lat1 lon1 lat2 lon2 =
       6371 * (2 * atan2
         (sqrt (sin ((lat2 - lat1) * (pi / 180) / 2) ^ 2 +
                cos (lat1 * (pi / 180)) * cos (lat2 * (pi / 180)) *
                  sin ((lon2 - lon1) * (pi / 180) / 2) ^ 2))
         (sqrt (1 - (sin ((lat2 - lat1) * (pi / 180) / 2) ^ 2 +
                     cos (lat1 * (pi / 180)) * cos (lat2 * (pi / 180)) *
                       sin ((lon2 - lon1) * (pi / 180) / 2) ^ 2))))"
proof -
  have same: "calculateDistance x y x y = 0" for x y
    by (simp add: calculateDistance_def atan2_def)
  have up: "calculateDistance lat lon (lat + 1) lon = 6371 * pi / 180"
    using half_degree by (simp add: calculateDistance_def Let_def)
  have down: "calculateDistance (lat + 1) lon lat lon = 6371 * pi / 180"
    using half_degree by (simp add: calculateDistance_def Let_def)
  have near: "\<bar>6371 * pi / 180 - 111\<bar> < 1"
    using pi6_lower pi6_upper by (simp add: abs_less_iff)
  have form: "calculateDistance lat1 lon1 lat2 lon2 =
       6371 * (2 * atan2
         (sqrt (sin ((lat2 - lat1) * (pi / 180) / 2) ^ 2 +
                cos (lat1 * (pi / 180)) * cos (lat2 * (pi / 180)) *
                  sin ((lon2 - lon1) * (pi / 180) / 2) ^ 2))
         (sqrt (1 - (sin ((lat2 - lat1) * (pi / 180) / 2) ^ 2 +
                     cos (lat1 * (pi / 180)) * cos (lat2 * (pi / 180)) *
                       sin ((lon2 - lon1) * (pi / 180) / 2) ^ 2))))"
    by (simp add: calculateDistance_def Let_def power2_eq_square mult.assoc)
  show ?thesis
    using same [of lat lon] same [of 0 0] up down near form by (simp only: simp_thms)
qed

end
